theory Spec2Isabelle
  imports Complex_Main "HOL-Library.Sublist"
begin

section \<open>Strings\<close>

text \<open>
  A JavaScript string is modelled as a \<^typ>\<open>string\<close>: a list of code units, restricted to
  the code units below 256. \<open>length\<close> is the source's \<open>.length\<close>, \<open>@\<close> is \<open>+\<close> on strings.
\<close>

definition nl :: char where
  "nl = CHR 0x0A"

text \<open>\<open>code.split('\n')\<close>: the pieces between newlines; never the empty list.\<close>

fun split_nl :: "string \<Rightarrow> string list" where
  "split_nl [] = [[]]"
| "split_nl (c # cs) =
     (if c = nl then [] # split_nl cs
      else (case split_nl cs of [] \<Rightarrow> [[c]] | l # ls \<Rightarrow> (c # l) # ls))"

section \<open>The chunker: \<open>splitCodeIntoChunks\<close>\<close>

text \<open>
  The body of the \<open>for (const line of lines)\<close> loop, on the pair of the mutable
  variables \<open>chunks\<close> and \<open>currentChunk\<close>.
\<close>

fun chunk_step :: "nat \<Rightarrow> string list \<times> string \<Rightarrow> string \<Rightarrow> string list \<times> string" where
  "chunk_step chunkSize (chunks, currentChunk) line =
     (if length currentChunk + length line > chunkSize \<and> length currentChunk > 0
      then (chunks @ [currentChunk], line @ [nl])
      else (chunks, currentChunk @ line @ [nl]))"

fun chunk_loop :: "nat \<Rightarrow> string list \<Rightarrow> string list \<times> string \<Rightarrow> string list \<times> string" where
  "chunk_loop chunkSize [] st = st"
| "chunk_loop chunkSize (line # lines) st = chunk_loop chunkSize lines (chunk_step chunkSize st line)"

definition splitCodeIntoChunks :: "string \<Rightarrow> nat \<Rightarrow> string list" where
  "splitCodeIntoChunks code chunkSize =
     (if length code \<le> chunkSize then [code]
      else (case chunk_loop chunkSize (split_nl code) ([], []) of
              (chunks, currentChunk) \<Rightarrow>
                if length currentChunk > 0 then chunks @ [currentChunk] else chunks))"

text \<open>
  What the chunker guarantees of one chunk: it is at most one character over the target,
  or it is one single line, longer than the target, with its newline.
\<close>

definition chunk_within :: "nat \<Rightarrow> string \<Rightarrow> bool" where
  "chunk_within chunkSize c \<longleftrightarrow>
     length c \<le> chunkSize + 1 \<or>
     (length c > chunkSize + 1 \<and> nl \<notin> set (butlast c) \<and> c = butlast c @ [nl])"

text \<open>
  The chunk that a run of consecutive lines makes: each line with the newline that the loop
  appends to it.
\<close>

definition chunk_of :: "string list \<Rightarrow> string" where
  "chunk_of g = concat (map (\<lambda>l. l @ [nl]) g)"

text \<open>
  A grouping of the lines into runs, as the size test forms it: no run is empty; between two
  runs the test held (the closed chunk and the next line exceed the target); inside a run it
  did not hold for any line after the first.
\<close>

definition grouped :: "nat \<Rightarrow> string list list \<Rightarrow> bool" where
  "grouped chunkSize groups \<longleftrightarrow>
     [] \<notin> set groups \<and>
     (\<forall>before g h after. groups = before @ g # h # after \<longrightarrow>
        chunkSize < length (chunk_of g) + length (hd h)) \<and>
     (\<forall>g \<in> set groups. \<forall>g1 l g2. g = g1 @ l # g2 \<and> g1 \<noteq> [] \<longrightarrow>
        length (chunk_of g1) + length l \<le> chunkSize)"

text \<open>The loop's two variables when the lines read so far are grouped into these runs.\<close>

definition group_state :: "string list list \<Rightarrow> string list \<times> string" where
  "group_state groups =
     (if groups = [] then ([], []) else (map chunk_of (butlast groups), chunk_of (last groups)))"

section \<open>More string operations\<close>

text \<open>
  \<open>\s\<close> of a regular expression and the characters \<open>trim()\<close> strips, among the code units
  below 256: tab, line feed, vertical tab, form feed, carriage return, space and the
  no-break space.
\<close>

definition is_space :: "char \<Rightarrow> bool" where
  "is_space c \<longleftrightarrow>
     c \<in> set [CHR 0x09, CHR 0x0A, CHR 0x0B, CHR 0x0C, CHR 0x0D, CHR 0x20, CHR 0xA0]"

definition trim :: "string \<Rightarrow> string" where
  "trim s = rev (dropWhile is_space (rev (dropWhile is_space s)))"

text \<open>\<open>toLowerCase()\<close> on the code units below 256: A-Z and the capital letters of Latin-1.\<close>

definition js_lower :: "char \<Rightarrow> char" where
  "js_lower c =
     (let n = (of_char c :: int)
      in if (65 \<le> n \<and> n \<le> 90) \<or> (192 \<le> n \<and> n \<le> 222 \<and> n \<noteq> 215)
         then char_of (n + 32) else c)"

definition toLowerCase :: "string \<Rightarrow> string" where
  "toLowerCase s = map js_lower s"

text \<open>\<open>Array.prototype.join\<close>.\<close>

fun join :: "string \<Rightarrow> string list \<Rightarrow> string" where
  "join sep [] = []"
| "join sep [x] = x"
| "join sep (x # y # ys) = x @ sep @ join sep (y # ys)"

text \<open>A non-negative integer in a template literal: its decimal digits.\<close>

definition digit_char :: "nat \<Rightarrow> char" where
  "digit_char d = ''0123456789'' ! d"

function show_nat :: "nat \<Rightarrow> string" where
  "show_nat n = (if n < 10 then [digit_char n] else show_nat (n div 10) @ [digit_char (n mod 10)])"
  by pat_completeness auto
termination
  by (relation "measure id") auto

declare show_nat.simps [simp del]

text \<open>
  \<open>s.split(/\n+/)\<close>: the pieces between maximal runs of newlines; a run at the start or at
  the end leaves an empty piece there.
\<close>

function split_nl_runs :: "string \<Rightarrow> string list" where
  "split_nl_runs s =
     (case dropWhile (\<lambda>c. c \<noteq> nl) s of
        [] \<Rightarrow> [s]
      | r # rs \<Rightarrow> takeWhile (\<lambda>c. c \<noteq> nl) s # split_nl_runs (dropWhile (\<lambda>c. c = nl) rs))"
  by pat_completeness auto
termination
proof (relation "measure length")
  show "wf (measure length)" by simp
next
  fix s :: string and r rs
  assume "dropWhile (\<lambda>c. c \<noteq> nl) s = r # rs"
  then have "length rs < length s"
    using length_dropWhile_le [of "\<lambda>c. c \<noteq> nl" s] by simp
  moreover have "length (dropWhile (\<lambda>c. c = nl) rs) \<le> length rs"
    by (rule length_dropWhile_le)
  ultimately show "(dropWhile (\<lambda>c. c = nl) rs, s) \<in> measure length"
    by simp
qed

declare split_nl_runs.simps [simp del]

section \<open>The data model\<close>

text \<open>
  An object with one entry per severity: the \<open>issues\<close> of a result (lists of issue texts) and,
  with the \<open>total\<close>, its \<open>issueCount\<close>.
\<close>

record 'a by_severity =
  critical :: 'a
  high :: 'a
  medium :: 'a
  low :: 'a

record issue_count = "nat by_severity" +
  total_count :: nat

datatype severity = Critical | High | Medium | Low

text \<open>
  An error object: \<open>Error\<close> and the three classes of the source, with the fields the source
  sets on them. A field that is not set is \<open>None\<close>.
\<close>

record js_error =
  e_name :: string
  e_message :: string
  e_statusCode :: "nat option"
  e_chunkNumber :: "nat option"
  e_retryAttempts :: "nat option"
  e_retrySuccess :: "bool option"

definition Error :: "string \<Rightarrow> js_error" where
  "Error msg = \<lparr>e_name = ''Error'', e_message = msg, e_statusCode = None,
     e_chunkNumber = None, e_retryAttempts = None, e_retrySuccess = None\<rparr>"

definition DeepseekApiError :: "string \<Rightarrow> nat \<Rightarrow> js_error" where
  "DeepseekApiError msg status = \<lparr>e_name = ''DeepseekApiError'', e_message = msg,
     e_statusCode = Some status, e_chunkNumber = None, e_retryAttempts = None,
     e_retrySuccess = None\<rparr>"

definition DeepseekTimeoutError :: "string \<Rightarrow> nat \<Rightarrow> js_error" where
  "DeepseekTimeoutError msg num = \<lparr>e_name = ''DeepseekTimeoutError'', e_message = msg,
     e_statusCode = None, e_chunkNumber = Some num, e_retryAttempts = None,
     e_retrySuccess = None\<rparr>"

definition DeepseekParsingError :: "string \<Rightarrow> js_error" where
  "DeepseekParsingError msg = \<lparr>e_name = ''DeepseekParsingError'', e_message = msg,
     e_statusCode = None, e_chunkNumber = None, e_retryAttempts = None,
     e_retrySuccess = None\<rparr>"

text \<open>
  The object \<open>parseReviewResponse\<close> returns, with the two fields \<open>processChunkWithRetry\<close> may
  add. The merged report has no \<open>chunkNumber\<close>.
\<close>

record chunk_result =
  model :: string
  focusAreas :: "string list"
  summary :: string
  issues :: "string list by_severity"
  recommendations :: string
  strengths :: string
  rawResponse :: string
  chunkNumber :: "nat option"
  totalChunks :: nat
  retryAttempts :: "nat option"
  retrySuccess :: "bool option"

text \<open>An entry of the \<open>errors\<close> array: \<open>{chunkNumber, error, code}\<close>.\<close>

record chunk_failure =
  f_chunkNumber :: nat
  f_error :: string
  f_code :: string

text \<open>
  What \<open>reviewWithDeepseek\<close> returns: the fields of a chunk result and the fields only a
  merged or partial report has; \<open>None\<close> is a field the object does not have.
\<close>

record report = chunk_result +
  issueCount :: "issue_count option"
  processedChunks :: "nat option"
  errors :: "chunk_failure list option"
  partialSuccess :: "bool option"
  chunkResults :: "chunk_result option list option"

text \<open>A chunk result returned as the report: the same object, no field added.\<close>

definition as_report :: "chunk_result \<Rightarrow> report" where
  "as_report r = \<lparr>model = model r, focusAreas = focusAreas r, summary = summary r,
     issues = issues r, recommendations = recommendations r, strengths = strengths r,
     rawResponse = rawResponse r, chunkNumber = chunkNumber r, totalChunks = totalChunks r,
     retryAttempts = retryAttempts r, retrySuccess = retrySuccess r,
     issueCount = None, processedChunks = None, errors = None, partialSuccess = None,
     chunkResults = None\<rparr>"

section \<open>The result merger: \<open>combineChunkResults\<close>\<close>

fun get_severity :: "severity \<Rightarrow> 'a by_severity \<Rightarrow> 'a" where
  "get_severity Critical x = critical x"
| "get_severity High x = high x"
| "get_severity Medium x = medium x"
| "get_severity Low x = low x"

text \<open>\<open>combinedIssues[severity].push(issue)\<close>.\<close>

fun push_issue :: "severity \<Rightarrow> string \<Rightarrow> string list by_severity \<Rightarrow> string list by_severity" where
  "push_issue Critical issue x = x\<lparr>critical := critical x @ [issue]\<rparr>"
| "push_issue High issue x = x\<lparr>high := high x @ [issue]\<rparr>"
| "push_issue Medium issue x = x\<lparr>medium := medium x @ [issue]\<rparr>"
| "push_issue Low issue x = x\<lparr>low := low x @ [issue]\<rparr>"

definition no_issues :: "string list by_severity" where
  "no_issues = \<lparr>critical = [], high = [], medium = [], low = []\<rparr>"

text \<open>
  The three nested loops over the results, the four severities and the issues of one
  severity, on the pair of \<open>uniqueIssues\<close> (one set for all severities) and \<open>combinedIssues\<close>.
\<close>

definition normalized :: "string \<Rightarrow> string" where
  "normalized issue = trim (toLowerCase issue)"

fun add_issue ::
  "severity \<Rightarrow> string set \<times> string list by_severity \<Rightarrow> string \<Rightarrow>
   string set \<times> string list by_severity" where
  "add_issue sev (uniqueIssues, combinedIssues) issue =
     (let normalizedIssue = normalized issue
      in if normalizedIssue \<notin> uniqueIssues
         then (insert normalizedIssue uniqueIssues, push_issue sev issue combinedIssues)
         else (uniqueIssues, combinedIssues))"

definition add_severity ::
  "chunk_result \<Rightarrow> string set \<times> string list by_severity \<Rightarrow> severity \<Rightarrow>
   string set \<times> string list by_severity" where
  "add_severity result st sev = foldl (add_issue sev) st (get_severity sev (issues result))"

definition add_result ::
  "string set \<times> string list by_severity \<Rightarrow> chunk_result \<Rightarrow>
   string set \<times> string list by_severity" where
  "add_result st result = foldl (add_severity result) st [Critical, High, Medium, Low]"

definition merge_issues :: "chunk_result list \<Rightarrow> string list by_severity" where
  "merge_issues results = snd (foldl add_result ({}, no_issues) results)"

text \<open>
  The merge of the issues said without the loops' state. \<open>visit_order\<close> is every issue
  with its severity in the order the loops visit them: result by result, within a result
  the four severities in their order, within a severity the issues in their order.
  \<open>first_seen\<close> keeps an entry when no earlier entry, of any severity, has the same
  normalised text.
\<close>

definition visit_result :: "chunk_result \<Rightarrow> (severity \<times> string) list" where
  "visit_result result =
     concat (map (\<lambda>sev. map (Pair sev) (get_severity sev (issues result)))
               [Critical, High, Medium, Low])"

definition visit_order :: "chunk_result list \<Rightarrow> (severity \<times> string) list" where
  "visit_order results = concat (map visit_result results)"

fun first_seen :: "string set \<Rightarrow> (severity \<times> string) list \<Rightarrow> (severity \<times> string) list" where
  "first_seen seen [] = []"
| "first_seen seen ((sev, issue) # rest) =
     (if normalized issue \<in> seen then first_seen seen rest
      else (sev, issue) # first_seen (insert (normalized issue) seen) rest)"

definition bucket :: "severity \<Rightarrow> (severity \<times> string) list \<Rightarrow> string list" where
  "bucket sev entries = map snd (filter (\<lambda>entry. fst entry = sev) entries)"

text \<open>
  A piece of the loops, as a function on their state, adds the entries \<open>T\<close>: the set grows
  by the normalised texts of \<open>T\<close>, each severity's list by its first-seen entries of \<open>T\<close>.
\<close>

definition adds ::
  "(string set \<times> string list by_severity \<Rightarrow> string set \<times> string list by_severity) \<Rightarrow>
   (severity \<times> string) list \<Rightarrow> bool" where
  "adds F T \<longleftrightarrow>
     (\<forall>seen acc.
        fst (F (seen, acc)) = seen \<union> (normalized \<circ> snd) ` set T \<and>
        (\<forall>sev. get_severity sev (snd (F (seen, acc))) =
                 get_severity sev acc @ bucket sev (first_seen seen T)))"

text \<open>
  Recommendations and strengths: the items of every text, split at newlines, trimmed, the
  empty ones dropped, added unless their normalised form was seen, and joined.
\<close>

fun add_item :: "string set \<times> string list \<Rightarrow> string \<Rightarrow> string set \<times> string list" where
  "add_item (unique, formatted) item =
     (let normalized = normalized item
      in if normalized \<notin> unique
         then (insert normalized unique, formatted @ [item])
         else (unique, formatted))"

definition split_items :: "string \<Rightarrow> string list" where
  "split_items s = filter (\<lambda>item. length item > 0) (map trim (split_nl_runs s))"

definition add_items :: "string set \<times> string list \<Rightarrow> string \<Rightarrow> string set \<times> string list" where
  "add_items st s = (if s \<noteq> [] then foldl add_item st (split_items s) else st)"

definition combine_texts :: "string list \<Rightarrow> string" where
  "combine_texts ss =
     (let formatted = snd (foldl add_items ({}, []) ss)
      in if length formatted > 0 then join ''\<newline>\<newline>'' formatted else [])"

definition chunk_summaries :: "chunk_result list \<Rightarrow> string list" where
  "chunk_summaries results =
     map (\<lambda>(index, result).
            ''Chunk '' @ show_nat (index + 1) @ '': '' @
            (if summary result \<noteq> [] then summary result else ''No summary available''))
         (enumerate 0 results)"

definition combineChunkResults :: "chunk_result list \<Rightarrow> string list \<Rightarrow> js_error + report" where
  "combineChunkResults results areas =
     (if length results = 0 then Inl (Error ''No chunk results to combine'')
      else if length results = 1 then Inr (as_report (results ! 0))
      else
        let combinedSummary =
              ''Code Review Summary ('' @ show_nat (length results) @ '' chunks):\<newline>\<newline>'' @
              join ''\<newline>\<newline>'' (chunk_summaries results);
            combinedIssues = merge_issues results
        in Inr \<lparr>model = ''deepseek-chat'', focusAreas = areas, summary = combinedSummary,
             issues = combinedIssues,
             recommendations = combine_texts (map recommendations results),
             strengths = combine_texts (map strengths results),
             rawResponse = join ''\<newline>\<newline>---\<newline>\<newline>'' (map rawResponse results),
             chunkNumber = None, totalChunks = totalChunks (results ! 0),
             retryAttempts = None, retrySuccess = None,
             issueCount = Some \<lparr>critical = length (critical combinedIssues),
               high = length (high combinedIssues), medium = length (medium combinedIssues),
               low = length (low combinedIssues),
               total_count = length (critical combinedIssues) + length (high combinedIssues) +
                 length (medium combinedIssues) + length (low combinedIssues)\<rparr>,
             processedChunks = Some (length results), errors = None, partialSuccess = None,
             chunkResults = None\<rparr>)"

text \<open>
  Two chunk results for the merger's example: the same issue under high severity in
  both, in different case, and one more issue in the second.
\<close>

definition example_first :: chunk_result where
  "example_first =
     \<lparr>model = ''deepseek-chat'', focusAreas = [], summary = ''First half'',
      issues = \<lparr>critical = [], high = [''Missing null check''], medium = [], low = []\<rparr>,
      recommendations = [], strengths = [], rawResponse = ''First half'',
      chunkNumber = Some 1, totalChunks = 2, retryAttempts = None, retrySuccess = None\<rparr>"

definition example_second :: chunk_result where
  "example_second =
     \<lparr>model = ''deepseek-chat'', focusAreas = [], summary = ''Second half'',
      issues = \<lparr>critical = [], high = [''missing NULL check ''], medium = [],
                 low = [''Long method'']\<rparr>,
      recommendations = [], strengths = [], rawResponse = ''Second half'',
      chunkNumber = Some 2, totalChunks = 2, retryAttempts = None, retrySuccess = None\<rparr>"

section \<open>The output formatter: \<open>enhanceOutputFormat\<close>\<close>

text \<open>\<open>results.issueCount || {critical: results.issues.critical.length, ...}\<close>.\<close>

definition issue_counts :: "report \<Rightarrow> nat by_severity" where
  "issue_counts results =
     (case issueCount results of
        Some c \<Rightarrow> \<lparr>critical = critical c, high = high c, medium = medium c, low = low c\<rparr>
      | None \<Rightarrow> \<lparr>critical = length (critical (issues results)),
          high = length (high (issues results)), medium = length (medium (issues results)),
          low = length (low (issues results))\<rparr>)"

definition retrySuccessCount :: "report \<Rightarrow> nat" where
  "retrySuccessCount results =
     (case chunkResults results of
        None \<Rightarrow> 0
      | Some cs \<Rightarrow>
          length (filter (\<lambda>chunk. case chunk of None \<Rightarrow> False
                                   | Some c \<Rightarrow> retrySuccess c = Some True) cs))"

text \<open>\<open>x || 1\<close> on a count: \<open>1\<close> when the field is absent or \<open>0\<close>.\<close>

definition or_one :: "nat option \<Rightarrow> nat" where
  "or_one x = (case x of None \<Rightarrow> 1 | Some n \<Rightarrow> if n = 0 then 1 else n)"

definition quickStats :: "report \<Rightarrow> string" where
  "quickStats results =
     (let c = issue_counts results;
          totalIssues = critical c + high c + medium c + low c
      in ''\<newline>## Quick Stats\<newline>- **Total Issues**: '' @ show_nat totalIssues @
         ''\<newline>- **Critical**: '' @ show_nat (critical c) @
         ''\<newline>- **High**: '' @ show_nat (high c) @
         ''\<newline>- **Medium**: '' @ show_nat (medium c) @
         ''\<newline>- **Low**: '' @ show_nat (low c) @
         ''\<newline>- **Focus Areas**: '' @ join '', '' (focusAreas results) @
         ''\<newline>- **Chunks Processed**: '' @ show_nat (or_one (processedChunks results)) @
         ''/'' @ show_nat (or_one (Some (totalChunks results))) @ ''\<newline>'' @
         (if retrySuccessCount results > 0
          then ''- **Chunks Recovered**: '' @ show_nat (retrySuccessCount results) @
               '' (via retry mechanism)''
          else []) @
         ''\<newline>'')"

definition numbered :: "string list \<Rightarrow> string" where
  "numbered xs = join ''\<newline>'' (map (\<lambda>(i, issue). show_nat (i + 1) @ ''. '' @ issue) (enumerate 0 xs))"

definition keyIssues :: "report \<Rightarrow> string" where
  "keyIssues results =
     (let c = issue_counts results
      in if critical c > 0 \<or> high c > 0
         then ''\<newline>## Key Issues to Address\<newline>\<newline>'' @
              (if critical c > 0
               then ''### Critical Issues\<newline>'' @ numbered (critical (issues results)) @ ''\<newline>''
               else []) @
              ''\<newline>\<newline>'' @
              (if high c > 0
               then ''### High Priority Issues\<newline>'' @ numbered (high (issues results)) @ ''\<newline>''
               else []) @
              ''\<newline>''
         else [])"

definition enhanceOutputFormat :: "report \<Rightarrow> report" where
  "enhanceOutputFormat results =
     (let enhanced = quickStats results @ keyIssues results @ ''\<newline>**\<newline>\<newline>'' @ summary results
      in results\<lparr>summary :=
           (if retrySuccessCount results > 0
            then enhanced @ ''\<newline>\<newline>**Note:** '' @ show_nat (retrySuccessCount results) @
                 '' chunk(s) initially failed but were successfully recovered through the automatic retry mechanism.''
            else enhanced)\<rparr>)"

section \<open>The section extractor: \<open>extractSection\<close>, \<open>extractIssuesBySeverity\<close>, \<open>parseReviewResponse\<close>\<close>

text \<open>
  The regular expressions of the source are modelled by matchers on the rest of the text
  at a position. The classes \<open>\w\<close> and \<open>\d\<close>, and the canonical form the flag \<open>i\<close> compares
  (the upper case; among the code units below 256 only a-z and the small letters of
  Latin-1 have another one below 256).
\<close>

definition is_word :: "char \<Rightarrow> bool" where
  "is_word c \<longleftrightarrow>
     (let n = (of_char c :: int)
      in (48 \<le> n \<and> n \<le> 57) \<or> (65 \<le> n \<and> n \<le> 90) \<or> n = 95 \<or> (97 \<le> n \<and> n \<le> 122))"

definition is_digit :: "char \<Rightarrow> bool" where
  "is_digit c \<longleftrightarrow> (let n = (of_char c :: int) in 48 \<le> n \<and> n \<le> 57)"

text \<open>
  The canonical form that flag \<open>i\<close> compares, as a code unit: the upper case of the
  character when that is one code unit, except that a character from 128 on is never
  mapped below 128. Below 256 that changes a-z, the small letters of Latin-1, the micro
  sign (to U+039C) and y with diaeresis (to U+0178).
\<close>

definition canonicalize :: "char \<Rightarrow> int" where
  "canonicalize c =
     (let n = (of_char c :: int)
      in if (97 \<le> n \<and> n \<le> 122) \<or> (224 \<le> n \<and> n \<le> 254 \<and> n \<noteq> 247) then n - 32
         else if n = 181 then 924
         else if n = 255 then 376
         else n)"

text \<open>\<open>\b\<close> between the character before a position (if any) and the rest of the text.\<close>

definition word_boundary :: "char option \<Rightarrow> string \<Rightarrow> bool" where
  "word_boundary prev rest \<longleftrightarrow>
     (case prev of None \<Rightarrow> False | Some c \<Rightarrow> is_word c) \<noteq>
     (case rest of [] \<Rightarrow> False | c # _ \<Rightarrow> is_word c)"

text \<open>The characters of a name under flag \<open>i\<close>, at the start of the text: what follows them.\<close>

fun match_ci :: "string \<Rightarrow> string \<Rightarrow> string option" where
  "match_ci [] rest = Some rest"
| "match_ci (p # ps) [] = None"
| "match_ci (p # ps) (c # cs) =
     (if canonicalize c = canonicalize p then match_ci ps cs else None)"

text \<open>
  The four expressions built for a section or severity name, with flag \<open>i\<close>:
  \<open>\bNAME\b[:\s]*\<close> (no hashes) and \<open>#\s*\bNAME\b[:\s]*\<close> with one, two or three \<open>#\<close>.
  \<open>match_heading\<close> is the length of the match that starts where \<open>rest\<close> starts, \<open>prev\<close> being
  the character before. The names of the source are words of letters, so the greedy \<open>\s*\<close>
  never has to give a space back.
\<close>

definition match_heading :: "nat \<Rightarrow> string \<Rightarrow> char option \<Rightarrow> string \<Rightarrow> nat option" where
  "match_heading hashes name prev rest =
     (if take hashes rest = replicate hashes (CHR ''#'')
      then
        let r1 = drop hashes rest;
            spaces = (if hashes > 0 then takeWhile is_space r1 else []);
            r2 = drop (length spaces) r1;
            prev2 = (if spaces \<noteq> [] then Some (last spaces)
                     else if hashes > 0 then Some (CHR ''#'') else prev)
        in (case match_ci name r2 of
              None \<Rightarrow> None
            | Some r3 \<Rightarrow>
                if word_boundary prev2 r2 \<and>
                   word_boundary (if name = [] then prev2
                                  else Some (last (take (length name) r2))) r3
                then Some (hashes + length spaces + length name +
                           length (takeWhile (\<lambda>c. c = CHR '':'' \<or> is_space c) r3))
                else None)
      else None)"

text \<open>\<open>text.match(regex)\<close>: index and length of the leftmost match.\<close>

fun find_heading :: "nat \<Rightarrow> string \<Rightarrow> char option \<Rightarrow> string \<Rightarrow> nat \<Rightarrow> (nat \<times> nat) option" where
  "find_heading hashes name prev [] i = map_option (Pair i) (match_heading hashes name prev [])"
| "find_heading hashes name prev (c # cs) i =
     (case match_heading hashes name prev (c # cs) of
        Some len \<Rightarrow> Some (i, len)
      | None \<Rightarrow> find_heading hashes name (Some c) cs (i + 1))"

text \<open>The matches of the four expressions, in the order of the source's array.\<close>

definition heading_matches :: "string \<Rightarrow> string \<Rightarrow> (nat \<times> nat) option list" where
  "heading_matches name t = map (\<lambda>hashes. find_heading hashes name None t 0) [0, 3, 2, 1]"

text \<open>
  The loop that keeps the earliest match: the state is \<open>(startIndex, matchLength)\<close>, \<open>None\<close>
  for \<open>startIndex === -1\<close>.
\<close>

fun start_step :: "(nat \<times> nat) option \<Rightarrow> (nat \<times> nat) option \<Rightarrow> (nat \<times> nat) option" where
  "start_step st None = st"
| "start_step None (Some m) = Some m"
| "start_step (Some (startIndex, matchLength)) (Some (idx, len)) =
     (if idx < startIndex then Some (idx, len) else Some (startIndex, matchLength))"

fun end_step :: "nat \<Rightarrow> nat \<Rightarrow> (nat \<times> nat) option \<Rightarrow> nat" where
  "end_step startIndex endIndex None = endIndex"
| "end_step startIndex endIndex (Some (idx, len)) =
     (if idx > startIndex \<and> idx < endIndex then idx else endIndex)"

text \<open>\<open>s.substring(a, b)\<close>: the arguments are swapped when \<open>a > b\<close> and clamped to the length.\<close>

definition substring :: "string \<Rightarrow> nat \<Rightarrow> nat \<Rightarrow> string" where
  "substring s a b = take (max a b - min a b) (drop (min a b) s)"

definition extractSection :: "string \<Rightarrow> string \<Rightarrow> string option \<Rightarrow> string" where
  "extractSection t sectionName nextSectionName =
     (if t = [] then []
      else case foldl start_step None (heading_matches sectionName t) of
             None \<Rightarrow> []
           | Some (idx, len) \<Rightarrow>
               let startIndex = idx + len;
                   endIndex =
                     (case nextSectionName of
                        None \<Rightarrow> length t
                      | Some next \<Rightarrow>
                          foldl (end_step startIndex) (length t) (heading_matches next t))
               in trim (substring t startIndex endIndex))"

text \<open>
  The lookahead \<open>(?=\n\d+\.|\n\s*$|$)\<close> of the numbered-list expression: the rest starts a
  new numbered item, or is a newline and white space up to the end, or is empty.
\<close>

definition item_lookahead :: "string \<Rightarrow> bool" where
  "item_lookahead r \<longleftrightarrow>
     (case r of
        [] \<Rightarrow> True
      | c # cs \<Rightarrow>
          c = nl \<and>
          ((takeWhile is_digit cs \<noteq> [] \<and>
            (case dropWhile is_digit cs of [] \<Rightarrow> False | d # _ \<Rightarrow> d = CHR ''.'')) \<or>
           list_all is_space cs))"

text \<open>
  \<open>.+?\<close> with flag \<open>s\<close>, before the lookahead: the least number of characters, at least
  one, after which the lookahead holds.
\<close>

fun lazy_item :: "string \<Rightarrow> nat option" where
  "lazy_item [] = None"
| "lazy_item (c # cs) = (if item_lookahead cs then Some 1 else map_option Suc (lazy_item cs))"

text \<open>\<open>\s+\<close> before it: all \<open>j\<close> spaces first, then one fewer, down to one.\<close>

fun spaces_backtrack :: "nat \<Rightarrow> string \<Rightarrow> nat option" where
  "spaces_backtrack 0 r = None"
| "spaces_backtrack (Suc j) r =
     (case lazy_item (drop (Suc j) r) of
        Some m \<Rightarrow> Some (Suc j + m)
      | None \<Rightarrow> spaces_backtrack j r)"

text \<open>\<open>/\d+\.\s+.+?(?=\n\d+\.|\n\s*$|$)/\<close>: the length of the match at the start of \<open>rest\<close>.\<close>

definition match_numbered :: "string \<Rightarrow> nat option" where
  "match_numbered rest =
     (let digits = takeWhile is_digit rest
      in if digits = [] then None
         else case dropWhile is_digit rest of
                [] \<Rightarrow> None
              | d # r2 \<Rightarrow>
                  if d \<noteq> CHR ''.'' then None
                  else map_option (\<lambda>m. length digits + 1 + m)
                         (spaces_backtrack (length (takeWhile is_space r2)) r2))"

text \<open>
  \<open>severityText.match(/.../gs)\<close>: all matches from left to right, each search starting where
  the last match ended; the empty list stands for \<open>null\<close>.
\<close>

function numbered_matches :: "string \<Rightarrow> string list" where
  "numbered_matches [] = []"
| "numbered_matches (c # cs) =
     (case match_numbered (c # cs) of
        None \<Rightarrow> numbered_matches cs
      | Some 0 \<Rightarrow> numbered_matches cs
      | Some (Suc k) \<Rightarrow> (c # take k cs) # numbered_matches (drop k cs))"
  by pat_completeness auto
termination
  by (relation "measure length") auto

text \<open>
  \<open>/\n\s*[-*\<bullet>]\s*|\n\s*\d+\.\s+/\<close>, the separator of the bullet split: the length of the
  match at the start of \<open>rest\<close>. The bullet character itself is not a code unit below 256.
\<close>

definition match_separator :: "string \<Rightarrow> nat option" where
  "match_separator rest =
     (case rest of
        [] \<Rightarrow> None
      | c # cs \<Rightarrow>
          if c \<noteq> nl then None
          else
            let spaces = takeWhile is_space cs;
                r1 = dropWhile is_space cs;
                digits = takeWhile is_digit r1;
                r2 = dropWhile is_digit r1
            in if r1 \<noteq> [] \<and> (hd r1 = CHR ''-'' \<or> hd r1 = CHR ''*'')
               then Some (1 + length spaces + 1 + length (takeWhile is_space (tl r1)))
               else if digits \<noteq> [] \<and> r2 \<noteq> [] \<and> hd r2 = CHR ''.'' \<and>
                       takeWhile is_space (tl r2) \<noteq> []
               then Some (1 + length spaces + length digits + 1 +
                          length (takeWhile is_space (tl r2)))
               else None)"

text \<open>\<open>severityText.split(separator)\<close>: \<open>piece\<close> is the piece read so far.\<close>

function split_separator :: "string \<Rightarrow> string \<Rightarrow> string list" where
  "split_separator piece [] = [piece]"
| "split_separator piece (c # cs) =
     (case match_separator (c # cs) of
        None \<Rightarrow> split_separator (piece @ [c]) cs
      | Some 0 \<Rightarrow> split_separator (piece @ [c]) cs
      | Some (Suc k) \<Rightarrow> piece # split_separator [] (drop k cs))"
  by pat_completeness auto
termination
  by (relation "measure (\<lambda>(piece, rest). length rest)") auto

definition severity_names :: "string list" where
  "severity_names = [''Critical'', ''High'', ''Medium'', ''Low'']"

definition extractIssuesBySeverity :: "string \<Rightarrow> string \<Rightarrow> string list" where
  "extractIssuesBySeverity issuesText sev =
     (if issuesText = [] then []
      else case foldl start_step None (heading_matches sev issuesText) of
             None \<Rightarrow> []
           | Some (idx, len) \<Rightarrow>
               let startIndex = idx + len;
                   nextSeverities =
                     filter (\<lambda>s. toLowerCase s \<noteq> toLowerCase sev) severity_names;
                   endIndex =
                     foldl (\<lambda>e next. foldl (end_step startIndex) e (heading_matches next issuesText))
                       (length issuesText) nextSeverities;
                   severityText = trim (substring issuesText startIndex endIndex);
                   numberedMatches = numbered_matches severityText
               in if numberedMatches \<noteq> [] then map trim numberedMatches
                  else map trim (filter (\<lambda>issue. trim issue \<noteq> [])
                                   (split_separator [] severityText)))"

definition parseReviewResponse :: "string \<Rightarrow> string list \<Rightarrow> nat \<Rightarrow> nat \<Rightarrow> chunk_result" where
  "parseReviewResponse reviewText areas num tot =
     (let s_summary = extractSection reviewText ''Summary'' (Some ''Issues'');
          s_issues = extractSection reviewText ''Issues'' (Some ''Recommendations'');
          s_recommendations = extractSection reviewText ''Recommendations'' (Some ''Strengths'');
          s_strengths = extractSection reviewText ''Strengths'' None
      in \<lparr>model = ''deepseek-chat'', focusAreas = areas,
           summary = (if s_summary \<noteq> [] then s_summary else reviewText),
           issues = \<lparr>critical = extractIssuesBySeverity s_issues ''Critical'',
                      high = extractIssuesBySeverity s_issues ''High'',
                      medium = extractIssuesBySeverity s_issues ''Medium'',
                      low = extractIssuesBySeverity s_issues ''Low''\<rparr>,
           recommendations = s_recommendations, strengths = s_strengths,
           rawResponse = reviewText, chunkNumber = Some num, totalChunks = tot,
           retryAttempts = None, retrySuccess = None\<rparr>)"

text \<open>The model text and the issues section of the section extractor's example.\<close>

definition example_review :: string where
  "example_review = ''## Summary\<newline>All good\<newline>## Issues\<newline>### Critical\<newline>1. SQL injection\<newline>### High\<newline>1. No input validation\<newline>## Recommendations\<newline>Add tests\<newline>## Strengths\<newline>Clear naming''"

definition example_issues :: string where
  "example_issues = ''### Critical\<newline>1. SQL injection\<newline>### High\<newline>1. No input validation''"

section \<open>The request executor: \<open>reviewCodeChunk\<close>\<close>

text \<open>
  A value \<open>JSON.parse\<close> returns. A number is given by its rendering in a template literal
  (\<open>''0''\<close> for the two zeros, the only numbers that are falsy); an object by its properties.
  \<open>JSON.parse\<close> itself is not code of the repository: the functions below take it as the
  parameter \<open>parse\<close>, \<open>None\<close> when it throws its SyntaxError.
\<close>

datatype json =
    JNull
  | JBool bool
  | JNum string
  | JStr string
  | JArr "json list"
  | JObj "(string \<times> json) list"

definition SyntaxError :: js_error where
  "SyntaxError = \<lparr>e_name = ''SyntaxError'', e_message = [], e_statusCode = None,
     e_chunkNumber = None, e_retryAttempts = None, e_retrySuccess = None\<rparr>"

definition TypeError :: js_error where
  "TypeError = \<lparr>e_name = ''TypeError'', e_message = [], e_statusCode = None,
     e_chunkNumber = None, e_retryAttempts = None, e_retrySuccess = None\<rparr>"

text \<open>\<open>v.key\<close> for a parsed value other than \<open>null\<close>; \<open>None\<close> is \<open>undefined\<close>.\<close>

fun get_prop :: "json \<Rightarrow> string \<Rightarrow> json option" where
  "get_prop (JObj props) key = map_of props key"
| "get_prop v key = None"

fun truthy :: "json option \<Rightarrow> bool" where
  "truthy None = False"
| "truthy (Some JNull) = False"
| "truthy (Some (JBool b)) = b"
| "truthy (Some (JNum n)) = (n \<noteq> ''0'')"
| "truthy (Some (JStr s)) = (s \<noteq> [])"
| "truthy (Some (JArr xs)) = True"
| "truthy (Some (JObj props)) = True"

text \<open>A parsed value in a template literal.\<close>

fun to_string :: "json \<Rightarrow> string" where
  "to_string JNull = ''null''"
| "to_string (JBool b) = (if b then ''true'' else ''false'')"
| "to_string (JNum n) = n"
| "to_string (JStr s) = s"
| "to_string (JArr xs) = join '','' (map (\<lambda>x. if x = JNull then [] else to_string x) xs)"
| "to_string (JObj props) = ''[object Object]''"

text \<open>
  \<open>errorData.error?.message || errorData.error || text\<close>, as the template literal renders it;
  reading \<open>.error\<close> of \<open>null\<close> throws.
\<close>

definition error_detail :: "json \<Rightarrow> string \<Rightarrow> js_error + string" where
  "error_detail errorData body =
     (if errorData = JNull then Inl TypeError
      else
        let err = get_prop errorData ''error'';
            msg = (case err of None \<Rightarrow> None | Some e \<Rightarrow> if e = JNull then None else get_prop e ''message'')
        in Inr (if truthy msg then to_string (the msg)
                else if truthy err then to_string (the err)
                else body))"

text \<open>
  The \<open>try\<close> block of the handler of a response that is not ok: whatever it does, it ends by
  throwing, what \<open>JSON.parse\<close> or the property access throws or the detailed error.
\<close>

definition error_response_try :: "(string \<Rightarrow> json option) \<Rightarrow> nat \<Rightarrow> string \<Rightarrow> js_error + unit" where
  "error_response_try parse status body =
     (case parse body of
        None \<Rightarrow> Inl SyntaxError
      | Some errorData \<Rightarrow>
          (case error_detail errorData body of
             Inl e \<Rightarrow> Inl e
           | Inr detail \<Rightarrow>
               Inl (DeepseekApiError
                      (''DeepSeek API error: '' @ show_nat status @ '' - '' @ detail) status)))"

text \<open>
  The handler, \<open>try\<close> and \<open>catch\<close>: the \<open>catch\<close> receives whatever the \<open>try\<close> block throws and
  throws the error with the raw text.
\<close>

definition error_response ::
  "(string \<Rightarrow> json option) \<Rightarrow> nat \<Rightarrow> string \<Rightarrow> string \<Rightarrow> js_error + unit" where
  "error_response parse status statusText body =
     (case error_response_try parse status body of
        Inl e \<Rightarrow>
          Inl (DeepseekApiError
                 (''DeepSeek API error: '' @ show_nat status @ '' '' @ statusText @ '' - '' @ body)
                 status)
      | Inr u \<Rightarrow> Inr u)"

text \<open>
  What the network does for one call: the timer wins the race, \<open>fetch\<close> or \<open>response.json()\<close>
  rejects, the response is not ok (status, status text, body), the response is ok without
  \<open>choices[0].message\<close>, or it is ok with the text \<open>choices[0].message.content\<close>.
\<close>

datatype fetch_outcome =
    TimedOut
  | Rejected js_error
  | ErrorStatus nat string string
  | NoCompletion
  | Completion string

definition reviewCodeChunk ::
  "(string \<Rightarrow> json option) \<Rightarrow> fetch_outcome \<Rightarrow> string list \<Rightarrow> nat \<Rightarrow> nat \<Rightarrow>
   js_error + chunk_result" where
  "reviewCodeChunk parse outcome areas num tot =
     (case outcome of
        TimedOut \<Rightarrow>
          Inl (DeepseekTimeoutError
                 (''DeepSeek API request timed out for chunk '' @ show_nat num) num)
      | Rejected e \<Rightarrow> Inl e
      | ErrorStatus status statusText body \<Rightarrow>
          (case error_response parse status statusText body of
             Inl e \<Rightarrow> Inl e
           | Inr u \<Rightarrow> Inl TypeError)
      | NoCompletion \<Rightarrow> Inl (DeepseekParsingError ''Invalid response from DeepSeek API'')
      | Completion review \<Rightarrow> Inr (parseReviewResponse review areas num tot))"

text \<open>
  An error body that is valid JSON, \<open>{"error":{"message":"Invalid \"key\""}}\<close> (the two
  inner quotes escaped with a backslash, the character \<open>0x5C\<close>), and what \<open>JSON.parse\<close>
  returns for it.
\<close>

definition example_error_body :: string where
  "example_error_body =
     ''{\"error\":{\"message\":\"Invalid '' @ [CHR 0x5C] @ ''\"key'' @ [CHR 0x5C] @ ''\"\"}}''"

definition example_error_json :: json where
  "example_error_json = JObj [(''error'', JObj [(''message'', JStr ''Invalid \"key\"'')])]"

section \<open>The retry controller: \<open>processChunkWithRetry\<close>\<close>

definition MAX_RETRIES :: nat where
  "MAX_RETRIES = 3"

definition BASE_DELAY :: real where
  "BASE_DELAY = 1000"

definition MAX_DELAY :: real where
  "MAX_DELAY = 10000"

text \<open>
  The delay before the retry that follows the failed attempt number \<open>attempt\<close> (from 0), \<open>r\<close>
  being the value of \<open>Math.random()\<close>. The source computes in doubles; the model computes
  in the reals.
\<close>

definition exponentialDelay :: "nat \<Rightarrow> real" where
  "exponentialDelay attempt = min MAX_DELAY (BASE_DELAY * 2 ^ attempt)"

definition jitter :: "nat \<Rightarrow> real \<Rightarrow> real" where
  "jitter attempt r = 0.2 * exponentialDelay attempt * (r - 0.5)"

definition delayWithJitter :: "nat \<Rightarrow> real \<Rightarrow> real" where
  "delayWithJitter attempt r = max 100 (exponentialDelay attempt + jitter attempt r)"

datatype chunk_status = Pending | InProgress | Retrying | Completed | Failed

text \<open>
  What a run of the controller does besides returning: the calls of \<open>reviewCodeChunk\<close> it
  made, the delays it waited and the statuses it reported.
\<close>

record retry_trace =
  calls :: nat
  delays :: "real list"
  reported :: "chunk_status list"

text \<open>
  The \<open>for\<close> loop. \<open>call attempt\<close> is what the awaited \<open>reviewCodeChunk\<close> does at that attempt,
  \<open>rand attempt\<close> the random number drawn after it failed. \<open>retried\<close> is the variable
  \<open>retryAttempts\<close>, \<open>lastError\<close> is \<open>None\<close> while undefined.
\<close>

function retry_loop ::
  "(nat \<Rightarrow> js_error + chunk_result) \<Rightarrow> (nat \<Rightarrow> real) \<Rightarrow> nat \<Rightarrow> nat \<Rightarrow> js_error option \<Rightarrow>
   retry_trace \<Rightarrow> (js_error + chunk_result) \<times> retry_trace" where
  "retry_loop call rand attempt retried lastError tr =
     (if attempt \<le> MAX_RETRIES
      then
        let retried' = (if attempt > 0 then attempt else retried);
            tr1 = (if attempt > 0 then tr\<lparr>reported := reported tr @ [Retrying]\<rparr> else tr);
            tr2 = tr1\<lparr>calls := calls tr1 + 1\<rparr>
        in (case call attempt of
              Inr result \<Rightarrow>
                (Inr (if retried' > 0
                      then result\<lparr>retryAttempts := Some retried', retrySuccess := Some True\<rparr>
                      else result), tr2)
            | Inl error \<Rightarrow>
                if attempt = MAX_RETRIES
                then (Inl (error\<lparr>e_retryAttempts := Some MAX_RETRIES,
                                   e_retrySuccess := Some False\<rparr>), tr2)
                else retry_loop call rand (attempt + 1) retried' (Some error)
                       (tr2\<lparr>delays := delays tr2 @ [delayWithJitter attempt (rand attempt)]\<rparr>))
      else (Inl (case lastError of Some e \<Rightarrow> e | None \<Rightarrow> Error []), tr))"
  by pat_completeness auto
termination
  by (relation "measure (\<lambda>(call, rand, attempt, retried, lastError, tr). MAX_RETRIES + 1 - attempt)")
    auto

declare retry_loop.simps [simp del]

definition processChunkWithRetry ::
  "(nat \<Rightarrow> js_error + chunk_result) \<Rightarrow> (nat \<Rightarrow> real) \<Rightarrow> (js_error + chunk_result) \<times> retry_trace" where
  "processChunkWithRetry call rand =
     retry_loop call rand 0 0 None \<lparr>calls = 0, delays = [], reported = []\<rparr>"

section \<open>The orchestrator: \<open>reviewWithDeepseek\<close>\<close>

text \<open>
  What the run does not decide: \<open>JSON.parse\<close>, what the network does for each chunk (by
  index) at each attempt, the random numbers, and the moment at which the task of each
  chunk settles. Tasks settle one at a time, in the order of these moments.
\<close>

record environment =
  json_parse :: "string \<Rightarrow> json option"
  fetched :: "nat \<Rightarrow> nat \<Rightarrow> fetch_outcome"
  random :: "nat \<Rightarrow> nat \<Rightarrow> real"
  settled_at :: "nat \<Rightarrow> nat"

record config =
  DEEPSEEK_API_KEY :: "string option"
  NEXT_PUBLIC_DEEPSEEK_API_KEY :: "string option"

text \<open>\<open>config.DEEPSEEK_API_KEY || config.NEXT_PUBLIC_DEEPSEEK_API_KEY\<close>, \<open>None\<close> when falsy.\<close>

definition apiKey :: "config \<Rightarrow> string option" where
  "apiKey cfg =
     (let k1 = DEEPSEEK_API_KEY cfg; k2 = NEXT_PUBLIC_DEEPSEEK_API_KEY cfg
      in if k1 \<noteq> None \<and> k1 \<noteq> Some [] then k1
         else if k2 \<noteq> None \<and> k2 \<noteq> Some [] then k2
         else None)"

text \<open>The arrays \<open>chunkResults\<close>, \<open>errors\<close> and \<open>chunkStatus\<close> that the tasks share.\<close>

record orchestrator =
  o_chunkResults :: "chunk_result list"
  o_errors :: "chunk_failure list"
  o_chunkStatus :: "chunk_status list"

text \<open>The task of chunk \<open>i\<close>: the \<open>await processChunkWithRetry(...)\<close> of \<open>processChunk\<close>.\<close>

definition chunk_task ::
  "environment \<Rightarrow> string list \<Rightarrow> string list \<Rightarrow> nat \<Rightarrow> js_error + chunk_result" where
  "chunk_task env chunks areas i =
     fst (processChunkWithRetry
            (\<lambda>attempt. reviewCodeChunk (json_parse env) (fetched env i attempt) areas
                          (i + 1) (length chunks))
            (random env i))"

text \<open>
  The task of chunk \<open>i\<close> settles: what follows the \<open>await\<close>, in the \<open>try\<close> block on success
  and in the \<open>catch\<close> block on failure.
\<close>

definition failure_entry :: "string list \<Rightarrow> nat \<Rightarrow> js_error \<Rightarrow> chunk_failure" where
  "failure_entry chunks i error =
     \<lparr>f_chunkNumber = i + 1, f_error = e_message error,
      f_code = substring (chunks ! i) 0 100 @ ''...''\<rparr>"

definition settle ::
  "environment \<Rightarrow> string list \<Rightarrow> string list \<Rightarrow> orchestrator \<Rightarrow> nat \<Rightarrow> orchestrator" where
  "settle env chunks areas st i =
     (case chunk_task env chunks areas i of
        Inr chunkResult \<Rightarrow>
          st\<lparr>o_chunkResults := o_chunkResults st @ [chunkResult],
             o_chunkStatus := (o_chunkStatus st)[i := Completed]\<rparr>
      | Inl error \<Rightarrow>
          st\<lparr>o_errors := o_errors st @ [failure_entry chunks i error],
             o_chunkStatus := (o_chunkStatus st)[i := Failed]\<rparr>)"

definition settle_order :: "environment \<Rightarrow> nat \<Rightarrow> nat list" where
  "settle_order env n = sort_key (settled_at env) [0..<n]"

text \<open>
  The launch loop and \<open>await Promise.all(chunkPromises)\<close>: every task is started, which
  sets its status to in-progress, and then every task settles. The status \<open>retrying\<close> that
  a task reports in between is overwritten when it settles.
\<close>

definition run_chunks :: "environment \<Rightarrow> string list \<Rightarrow> string list \<Rightarrow> orchestrator" where
  "run_chunks env chunks areas =
     foldl (settle env chunks areas)
       \<lparr>o_chunkResults = [], o_errors = [],
        o_chunkStatus = replicate (length chunks) InProgress\<rparr>
       (settle_order env (length chunks))"

text \<open>
  The warning sign that opens the note of a partial failure is U+26A0 U+FE0F, outside the
  code units below 256; its UTF-8 bytes stand for it.
\<close>

definition warning_sign :: string where
  "warning_sign = [CHR 0xE2, CHR 0x9A, CHR 0xA0, CHR 0xEF, CHR 0xB8, CHR 0x8F]"

definition partial_note :: "nat \<Rightarrow> nat \<Rightarrow> string" where
  "partial_note failedCount tot =
     warning_sign @ '' Note: '' @ show_nat failedCount @ '' of '' @ show_nat tot @
     '' chunks failed to process. The review is incomplete.\<newline>\<newline>''"

text \<open>
  From the check that all chunks failed to the partial-failure fields: the report as it
  is handed to \<open>enhanceOutputFormat\<close>.
\<close>

definition combined_report :: "orchestrator \<Rightarrow> string list \<Rightarrow> nat \<Rightarrow> js_error + report" where
  "combined_report st areas tot =
     (if length (o_chunkResults st) = 0 \<and> length (o_errors st) > 0
      then Inl (Error (''All '' @ show_nat (length (o_errors st)) @
                       '' chunks failed to process. First error: '' @ f_error (o_errors st ! 0)))
      else case combineChunkResults (o_chunkResults st) areas of
             Inl e \<Rightarrow> Inl e
           | Inr combinedResults \<Rightarrow>
               Inr (if length (o_errors st) > 0
                    then combinedResults\<lparr>errors := Some (o_errors st),
                           partialSuccess := Some True,
                           summary := partial_note (length (o_errors st)) tot @
                                      summary combinedResults\<rparr>
                    else combinedResults))"

definition reviewWithDeepseek ::
  "environment \<Rightarrow> string \<Rightarrow> string list \<Rightarrow> config \<Rightarrow> js_error + report" where
  "reviewWithDeepseek env code areas cfg =
     (if apiKey cfg = None
      then Inl (Error ''DeepSeek API key not found. Set DEEPSEEK_API_KEY or NEXT_PUBLIC_DEEPSEEK_API_KEY in .env or .aicodereviewrc'')
      else
        let chunks = splitCodeIntoChunks code 3000
        in (case combined_report (run_chunks env chunks areas) areas (length chunks) of
              Inl e \<Rightarrow> Inl e
            | Inr combinedResults \<Rightarrow> Inr (enhanceOutputFormat combinedResults)))"

section \<open>Example runs\<close>

text \<open>
  Sources of two and of three chunks: lines of 3000 characters, and a short last line
  without a newline. In the source's language: \<open>"a".repeat(3000) + "\nb"\<close> and
  \<open>"a".repeat(3000) + "\n" + "b".repeat(3000) + "\nc"\<close>.
\<close>

definition two_chunk_code :: string where
  "two_chunk_code = replicate 3000 (CHR ''a'') @ [nl] @ ''b''"

definition three_chunk_code :: string where
  "three_chunk_code =
     replicate 3000 (CHR ''a'') @ [nl] @ replicate 3000 (CHR ''b'') @ [nl] @ ''c''"

text \<open>
  An environment in which every call for chunk \<open>i\<close> ends as \<open>answers i\<close> says and the task
  of chunk \<open>i\<close> settles at the time \<open>moment i\<close>.
\<close>

definition example_env :: "(nat \<Rightarrow> fetch_outcome) \<Rightarrow> (nat \<Rightarrow> nat) \<Rightarrow> environment" where
  "example_env answers moment =
     \<lparr>json_parse = (\<lambda>t. None),
      fetched = (\<lambda>i attempt. answers i),
      random = (\<lambda>i attempt. 0),
      settled_at = moment\<rparr>"

text \<open>
  Answers: the second chunk always times out and the others are answered with the text
  \<open>Fine\<close>; every chunk always times out; the first chunk always times out and the others
  are refused at once with the status 500.
\<close>

definition second_times_out :: "nat \<Rightarrow> fetch_outcome" where
  "second_times_out i = (if i = 1 then TimedOut else Completion ''Fine'')"

definition all_time_out :: "nat \<Rightarrow> fetch_outcome" where
  "all_time_out i = TimedOut"

definition first_slow_second_busy :: "nat \<Rightarrow> fetch_outcome" where
  "first_slow_second_busy i =
     (if i = 0 then TimedOut else ErrorStatus 500 ''Internal Server Error'' ''busy'')"

text \<open>
  Moments: the tasks settle in the order of the chunks; the second chunk settles before
  the first; the second chunk settles last of three.
\<close>

definition in_order :: "nat \<Rightarrow> nat" where
  "in_order i = i"

definition second_first :: "nat \<Rightarrow> nat" where
  "second_first i = 1 - i"

definition second_last :: "nat \<Rightarrow> nat" where
  "second_last i = (if i = 1 then 3 else i)"

definition example_config :: config where
  "example_config = \<lparr>DEEPSEEK_API_KEY = Some ''key'', NEXT_PUBLIC_DEEPSEEK_API_KEY = None\<rparr>"

text \<open>The error with which the task of a chunk that always times out ends.\<close>

definition timeout_failure :: "nat \<Rightarrow> js_error" where
  "timeout_failure num =
     \<lparr>e_name = ''DeepseekTimeoutError'',
      e_message = ''DeepSeek API request timed out for chunk '' @ show_nat num,
      e_statusCode = None, e_chunkNumber = Some num, e_retryAttempts = Some 3,
      e_retrySuccess = Some False\<rparr>"

text \<open>The error with which the task of a chunk that is always refused as above ends.\<close>

definition busy_failure :: js_error where
  "busy_failure =
     \<lparr>e_name = ''DeepseekApiError'',
      e_message = ''DeepSeek API error: 500 Internal Server Error - busy'',
      e_statusCode = Some 500, e_chunkNumber = None, e_retryAttempts = Some 3,
      e_retrySuccess = Some False\<rparr>"

text \<open>
  Answers in which the second chunk always times out and the others are answered with the
  section extractor's example text, which has one critical and one high issue.
\<close>

definition reviewed_but_second :: "nat \<Rightarrow> fetch_outcome" where
  "reviewed_but_second i = (if i = 1 then TimedOut else Completion example_review)"

section \<open>Properties of the chunker\<close>

lemma split_nl_nonempty: "split_nl s \<noteq> []"
  by (induction s) (auto split: list.splits)

lemma split_nl_no_nl: "l \<in> set (split_nl s) \<Longrightarrow> nl \<notin> set l"
proof (induction s arbitrary: l)
  case Nil
  then show ?case by simp
next
  case (Cons c cs)
  show ?case
  proof (cases "c = nl")
    case True
    with Cons show ?thesis by auto
  next
    case False
    obtain h t where ht: "split_nl cs = h # t"
      using split_nl_nonempty [of cs] by (cases "split_nl cs") auto
    with Cons False show ?thesis by auto
  qed
qed



lemma chunk_within_line:
  assumes "nl \<notin> set l"
  shows "chunk_within n (l @ [nl])"
  using assms by (auto simp: chunk_within_def)

lemma chunk_step_within:
  assumes step: "chunk_step n (chunks, cur) l = (chunks', cur')"
    and inv: "\<forall>c \<in> set chunks. chunk_within n c" "cur = [] \<or> chunk_within n cur"
    and l: "nl \<notin> set l"
  shows "(\<forall>c \<in> set chunks'. chunk_within n c) \<and> (cur' = [] \<or> chunk_within n cur')"
proof (cases "length cur + length l > n \<and> length cur > 0")
  case True
  with step have eq: "chunks' = chunks @ [cur]" "cur' = l @ [nl]"
    by auto
  from True inv(2) have "chunk_within n cur"
    by auto
  with inv(1) eq chunk_within_line [OF l] show ?thesis
    by auto
next
  case False
  with step have eq: "chunks' = chunks" "cur' = cur @ l @ [nl]"
    by auto
  show ?thesis
  proof (cases "cur = []")
    case True
    with eq inv(1) chunk_within_line [OF l] show ?thesis
      by auto
  next
    case nonempty: False
    with False have "length cur + length l \<le> n"
      by auto
    then have "chunk_within n (cur @ l @ [nl])"
      by (simp add: chunk_within_def)
    with eq inv(1) show ?thesis
      by auto
  qed
qed

lemma chunk_loop_within:
  "chunk_loop n ls (chunks, cur) = (chunks', cur') \<Longrightarrow>
   \<forall>c \<in> set chunks. chunk_within n c \<Longrightarrow> cur = [] \<or> chunk_within n cur \<Longrightarrow>
   \<forall>l \<in> set ls. nl \<notin> set l \<Longrightarrow>
   (\<forall>c \<in> set chunks'. chunk_within n c) \<and> (cur' = [] \<or> chunk_within n cur')"
proof (induction ls arbitrary: chunks cur)
  case Nil
  then show ?case by simp
next
  case (Cons l ls)
  obtain chunks1 cur1 where s: "chunk_step n (chunks, cur) l = (chunks1, cur1)"
    by (cases "chunk_step n (chunks, cur) l") auto
  from Cons.prems(4) have l: "nl \<notin> set l" and ls: "\<forall>l \<in> set ls. nl \<notin> set l"
    by auto
  from chunk_step_within [OF s Cons.prems(2) Cons.prems(3) l]
  have i1: "\<forall>c \<in> set chunks1. chunk_within n c" and i2: "cur1 = [] \<or> chunk_within n cur1"
    by auto
  from Cons.prems(1) s have "chunk_loop n ls (chunks1, cur1) = (chunks', cur')"
    by simp
  from Cons.IH [OF this i1 i2 ls] show ?case .
qed




text \<open>
  C8, as stated, fails: the size test leaves out the newline that is appended with the
  line, so a chunk of several short lines can be one character over the target.
\<close>

theorem chunker_bound_counterexample:
  "length ''ab\<newline>cd\<newline>e'' > 5 \<and>
   map length (split_nl ''ab\<newline>cd\<newline>e'') = [2, 2, 1] \<and>
   splitCodeIntoChunks ''ab\<newline>cd\<newline>e'' 5 = [''ab\<newline>cd\<newline>'', ''e\<newline>''] \<and>
   length (splitCodeIntoChunks ''ab\<newline>cd\<newline>e'' 5 ! 0) = 6 \<and>
   chunk_step 5 ([], ''ab\<newline>'') ''cd'' = ([], ''ab\<newline>cd\<newline>'')"
  by (simp add: splitCodeIntoChunks_def nl_def)

lemma chunk_of_snoc: "chunk_of (g @ [l]) = chunk_of g @ l @ [nl]"
  by (simp add: chunk_of_def)

lemma chunk_of_nonempty: "g \<noteq> [] \<Longrightarrow> chunk_of g \<noteq> []"
  by (cases g) (simp_all add: chunk_of_def)

lemma grouped_empty: "grouped n []"
  by (simp add: grouped_def)

lemma grouped_new:
  assumes gr: "grouped n (bs @ [g])" and test: "n < length (chunk_of g) + length l"
  shows "grouped n (bs @ [g] @ [[l]])"
  unfolding grouped_def
proof (intro conjI allI impI ballI)
  from gr show "[] \<notin> set (bs @ [g] @ [[l]])"
    by (auto simp: grouped_def)
next
  fix before x h after
  assume eq: "bs @ [g] @ [[l]] = before @ x # h # after"
  show "n < length (chunk_of x) + length (hd h)"
  proof (cases after rule: rev_cases)
    case Nil
    with eq have "(bs @ [g]) @ [[l]] = (before @ [x]) @ [h]"
      by simp
    then have "bs @ [g] = before @ [x]" and "h = [l]"
      by (simp_all only: append1_eq_conv)
    with test show ?thesis
      by simp
  next
    case (snoc after' y)
    with eq have "(bs @ [g]) @ [[l]] = (before @ x # h # after') @ [y]"
      by simp
    then have "bs @ [g] = before @ x # h # after'"
      by (simp only: append1_eq_conv)
    with gr show ?thesis
      unfolding grouped_def by blast
  qed
next
  fix g' g1 x g2
  assume mem: "g' \<in> set (bs @ [g] @ [[l]])" and split: "g' = g1 @ x # g2 \<and> g1 \<noteq> []"
  from split have "g' \<noteq> [l]"
    by (cases g1) auto
  with mem have "g' \<in> set (bs @ [g])"
    by auto
  with gr split show "length (chunk_of g1) + length x \<le> n"
    unfolding grouped_def by blast
qed

lemma grouped_append:
  assumes gr: "grouped n (bs @ [g])" and test: "length (chunk_of g) + length l \<le> n"
  shows "grouped n (bs @ [g @ [l]])"
  unfolding grouped_def
proof (intro conjI allI impI ballI)
  from gr show "[] \<notin> set (bs @ [g @ [l]])"
    by (auto simp: grouped_def)
next
  from gr have g: "g \<noteq> []"
    by (auto simp: grouped_def)
  fix before x h after
  assume eq: "bs @ [g @ [l]] = before @ x # h # after"
  show "n < length (chunk_of x) + length (hd h)"
  proof (cases after rule: rev_cases)
    case Nil
    with eq have "bs @ [g @ [l]] = (before @ [x]) @ [h]"
      by simp
    then have "bs = before @ [x]" and h: "h = g @ [l]"
      by (simp_all only: append1_eq_conv)
    then have "bs @ [g] = before @ x # g # []"
      by simp
    with gr have "n < length (chunk_of x) + length (hd g)"
      unfolding grouped_def by blast
    with g h show ?thesis
      by simp
  next
    case (snoc after' y)
    with eq have "bs @ [g @ [l]] = (before @ x # h # after') @ [y]"
      by simp
    then have "bs = before @ x # h # after'"
      by (simp only: append1_eq_conv)
    then have "bs @ [g] = before @ x # h # (after' @ [g])"
      by simp
    with gr show ?thesis
      unfolding grouped_def by blast
  qed
next
  fix g' g1 x g2
  assume mem: "g' \<in> set (bs @ [g @ [l]])" and split: "g' = g1 @ x # g2 \<and> g1 \<noteq> []"
  show "length (chunk_of g1) + length x \<le> n"
  proof (cases "g' \<in> set bs")
    case True
    then have "g' \<in> set (bs @ [g])"
      by simp
    with gr split show ?thesis
      unfolding grouped_def by blast
  next
    case False
    with mem have g': "g' = g @ [l]"
      by auto
    show ?thesis
    proof (cases g2 rule: rev_cases)
      case Nil
      with g' split have "g @ [l] = g1 @ [x]"
        by simp
      then have "g = g1" and "l = x"
        by (simp_all only: append1_eq_conv)
      with test show ?thesis
        by simp
    next
      case (snoc g2' y)
      with g' split have "g @ [l] = (g1 @ x # g2') @ [y]"
        by simp
      then have "g = g1 @ x # g2'"
        by (simp only: append1_eq_conv)
      moreover have "g \<in> set (bs @ [g])"
        by simp
      ultimately show ?thesis
        using gr split unfolding grouped_def by blast
    qed
  qed
qed

lemma grouped_single: "grouped n [[l]]"
  by (auto simp: grouped_def Cons_eq_append_conv append_eq_Cons_conv)

lemma group_state_snoc: "group_state (bs @ [g]) = (map chunk_of bs, chunk_of g)"
  by (simp add: group_state_def)

text \<open>One turn of the loop keeps the variables in step with a grouping of the lines read.\<close>

lemma chunk_step_grouped:
  assumes gr: "grouped n gs"
  shows "\<exists>gs'. chunk_step n (group_state gs) l = group_state gs' \<and> grouped n gs' \<and>
           concat gs' = concat gs @ [l] \<and> gs' \<noteq> []"
proof (cases gs rule: rev_cases)
  case Nil
  have "chunk_step n (group_state []) l = group_state [[l]]"
    by (simp add: group_state_def chunk_of_def)
  with Nil grouped_single [of n l] show ?thesis
    by (intro exI [of _ "[[l]]"]) simp
next
  case (snoc bs g)
  from gr snoc have g: "g \<noteq> []"
    by (auto simp: grouped_def)
  then have cur: "chunk_of g \<noteq> []"
    by (rule chunk_of_nonempty)
  show ?thesis
  proof (cases "n < length (chunk_of g) + length l")
    case True
    have "group_state ((bs @ [g]) @ [[l]]) = (map chunk_of (bs @ [g]), chunk_of [l])"
      by (rule group_state_snoc)
    moreover have "chunk_of [l] = l @ [nl]"
      by (simp add: chunk_of_def)
    ultimately
    have "chunk_step n (group_state (bs @ [g])) l = group_state ((bs @ [g]) @ [[l]])"
      using True cur by (simp add: group_state_snoc)
    moreover from gr snoc True have "grouped n ((bs @ [g]) @ [[l]])"
      using grouped_new [of n bs g l] by simp
    ultimately show ?thesis
      using snoc by (intro exI [of _ "(bs @ [g]) @ [[l]]"]) simp
  next
    case False
    then have "chunk_step n (group_state (bs @ [g])) l = group_state (bs @ [g @ [l]])"
      by (simp add: group_state_snoc chunk_of_snoc)
    moreover from gr snoc False have "grouped n (bs @ [g @ [l]])"
      using grouped_append [of n bs g l] by simp
    ultimately show ?thesis
      using snoc by (intro exI [of _ "bs @ [g @ [l]]"]) simp
  qed
qed

lemma chunk_loop_grouped:
  "grouped n gs \<Longrightarrow>
   \<exists>gs'. chunk_loop n ls (group_state gs) = group_state gs' \<and> grouped n gs' \<and>
      concat gs' = concat gs @ ls \<and> (ls \<noteq> [] \<longrightarrow> gs' \<noteq> [])"
proof (induction ls arbitrary: gs)
  case Nil
  then show ?case
    by (intro exI [of _ gs]) simp
next
  case (Cons l ls)
  from chunk_step_grouped [OF Cons.prems, of l]
  obtain gs1 where s: "chunk_step n (group_state gs) l = group_state gs1"
    and g1: "grouped n gs1" and c1: "concat gs1 = concat gs @ [l]" and n1: "gs1 \<noteq> []"
    by blast
  from Cons.IH [OF g1]
  obtain gs' where r: "chunk_loop n ls (group_state gs1) = group_state gs'"
    and g': "grouped n gs'" and c': "concat gs' = concat gs1 @ ls"
    by blast
  from c' c1 have "gs' \<noteq> []"
    by auto
  with s r g' c' c1 show ?case
    by (intro exI [of _ gs']) simp
qed

text \<open>
  The chunks of a text longer than the target are the runs of a grouping of its lines.
\<close>

lemma chunker_groups:
  assumes long: "length code > chunkSize"
  shows "\<exists>groups. grouped chunkSize groups \<and> concat groups = split_nl code \<and>
           splitCodeIntoChunks code chunkSize = map chunk_of groups"
proof -
  from chunk_loop_grouped [OF grouped_empty, of chunkSize "split_nl code"]
  obtain gs where r: "chunk_loop chunkSize (split_nl code) (group_state []) = group_state gs"
    and g: "grouped chunkSize gs" and c: "concat gs = split_nl code" and n: "gs \<noteq> []"
    using split_nl_nonempty [of code] by auto
  from n obtain bs l where gs: "gs = bs @ [l]"
    by (cases gs rule: rev_cases) auto
  with g have "l \<noteq> []"
    by (auto simp: grouped_def)
  then have "chunk_of l \<noteq> []"
    by (rule chunk_of_nonempty)
  with r gs long have "splitCodeIntoChunks code chunkSize = map chunk_of gs"
    by (simp add: splitCodeIntoChunks_def group_state_def)
  with g c show ?thesis
    by blast
qed

text \<open>
  C8, amended: for a text longer than the target size, every chunk has length at most
  the target size plus one (the newline of its last line is not counted by the size test),
  except a chunk that is one single line longer than the target, with its newline; and the
  chunks are the lines of the text, in order and each with its newline, cut into non-empty
  runs so that a new chunk is started exactly when the running chunk's length plus the next
  line's length, without the line's newline, exceeds the target size and the running chunk
  is non-empty: between two consecutive chunks the closed chunk's length plus the length of
  the first line of the next exceeds the target, and inside a chunk, at every line after
  its first, the length of the chunk so far plus that line's length does not.
\<close>

theorem chunker_bound:
  "length code > chunkSize \<longrightarrow>
     (\<forall>c \<in> set (splitCodeIntoChunks code chunkSize). chunk_within chunkSize c) \<and>
     (\<exists>groups. concat groups = split_nl code \<and> [] \<notin> set groups \<and>
        splitCodeIntoChunks code chunkSize = map chunk_of groups \<and>
        (\<forall>before g h after. groups = before @ g # h # after \<longrightarrow>
           chunkSize < length (chunk_of g) + length (hd h)) \<and>
        (\<forall>g \<in> set groups. \<forall>g1 l g2. g = g1 @ l # g2 \<and> g1 \<noteq> [] \<longrightarrow>
           length (chunk_of g1) + length l \<le> chunkSize))"
proof
  assume long: "length code > chunkSize"
  have a: "\<forall>c \<in> set (splitCodeIntoChunks code chunkSize). chunk_within chunkSize c"
  proof -
    obtain cs cur' where r: "chunk_loop chunkSize (split_nl code) ([], []) = (cs, cur')"
      by (cases "chunk_loop chunkSize (split_nl code) ([], [])") auto
    have "\<forall>l \<in> set (split_nl code). nl \<notin> set l"
      using split_nl_no_nl by blast
    with chunk_loop_within [OF r]
    have "(\<forall>c \<in> set cs. chunk_within chunkSize c) \<and> (cur' = [] \<or> chunk_within chunkSize cur')"
      by simp
    with long r show ?thesis
      by (auto simp: splitCodeIntoChunks_def)
  qed
  from chunker_groups [OF long]
  obtain groups where "grouped chunkSize groups" and "concat groups = split_nl code"
    and "splitCodeIntoChunks code chunkSize = map chunk_of groups"
    by blast
  then have "concat groups = split_nl code \<and> [] \<notin> set groups \<and>
        splitCodeIntoChunks code chunkSize = map chunk_of groups \<and>
        (\<forall>before g h after. groups = before @ g # h # after \<longrightarrow>
           chunkSize < length (chunk_of g) + length (hd h)) \<and>
        (\<forall>g \<in> set groups. \<forall>g1 l g2. g = g1 @ l # g2 \<and> g1 \<noteq> [] \<longrightarrow>
           length (chunk_of g1) + length l \<le> chunkSize)"
    unfolding grouped_def by blast
  with a show "(\<forall>c \<in> set (splitCodeIntoChunks code chunkSize). chunk_within chunkSize c) \<and>
     (\<exists>groups. concat groups = split_nl code \<and> [] \<notin> set groups \<and>
        splitCodeIntoChunks code chunkSize = map chunk_of groups \<and>
        (\<forall>before g h after. groups = before @ g # h # after \<longrightarrow>
           chunkSize < length (chunk_of g) + length (hd h)) \<and>
        (\<forall>g \<in> set groups. \<forall>g1 l g2. g = g1 @ l # g2 \<and> g1 \<noteq> [] \<longrightarrow>
           length (chunk_of g1) + length l \<le> chunkSize))"
    by blast
qed

theorem chunker_bound_witness:
  "length ''ab\<newline>cd\<newline>e'' > 5 \<and>
   list_all (chunk_within 5) (splitCodeIntoChunks ''ab\<newline>cd\<newline>e'' 5) \<and>
   (\<exists>groups. concat groups = split_nl ''ab\<newline>cd\<newline>e'' \<and> [] \<notin> set groups \<and>
      splitCodeIntoChunks ''ab\<newline>cd\<newline>e'' 5 = map chunk_of groups \<and>
      (\<forall>before g h after. groups = before @ g # h # after \<longrightarrow>
         5 < length (chunk_of g) + length (hd h)) \<and>
      (\<forall>g \<in> set groups. \<forall>g1 l g2. g = g1 @ l # g2 \<and> g1 \<noteq> [] \<longrightarrow>
         length (chunk_of g1) + length l \<le> 5)) \<and>
   split_nl ''ab\<newline>cd\<newline>e'' = concat [[''ab'', ''cd''], [''e'']] \<and>
   splitCodeIntoChunks ''ab\<newline>cd\<newline>e'' 5 = map chunk_of [[''ab'', ''cd''], [''e'']] \<and>
   5 < length (chunk_of [''ab'', ''cd'']) + length (hd [''e'']) \<and>
   length (chunk_of [''ab'']) + length ''cd'' \<le> 5"
proof -
  have "length ''ab\<newline>cd\<newline>e'' > 5"
    by simp
  with chunker_bound [of 5 "''ab\<newline>cd\<newline>e''"]
  have "(\<forall>c \<in> set (splitCodeIntoChunks ''ab\<newline>cd\<newline>e'' 5). chunk_within 5 c) \<and>
   (\<exists>groups. concat groups = split_nl ''ab\<newline>cd\<newline>e'' \<and> [] \<notin> set groups \<and>
      splitCodeIntoChunks ''ab\<newline>cd\<newline>e'' 5 = map chunk_of groups \<and>
      (\<forall>before g h after. groups = before @ g # h # after \<longrightarrow>
         5 < length (chunk_of g) + length (hd h)) \<and>
      (\<forall>g \<in> set groups. \<forall>g1 l g2. g = g1 @ l # g2 \<and> g1 \<noteq> [] \<longrightarrow>
         length (chunk_of g1) + length l \<le> 5))"
    by blast
  moreover have "split_nl ''ab\<newline>cd\<newline>e'' = concat [[''ab'', ''cd''], [''e'']]"
    by (simp add: nl_def)
  moreover have "splitCodeIntoChunks ''ab\<newline>cd\<newline>e'' 5 = map chunk_of [[''ab'', ''cd''], [''e'']]"
    by (simp add: splitCodeIntoChunks_def chunk_of_def nl_def)
  moreover have "5 < length (chunk_of [''ab'', ''cd'']) + length (hd [''e''])"
    by (simp add: chunk_of_def)
  moreover have "length (chunk_of [''ab'']) + length ''cd'' \<le> 5"
    by (simp add: chunk_of_def)
  ultimately show ?thesis
    by (simp only: list_all_iff) simp
qed

section \<open>Properties of the retry controller\<close>

lemma retry_loop_last:
  "retry_loop call rand 3 retried lastError tr =
     (case call 3 of
        Inr result \<Rightarrow>
          (Inr (result\<lparr>retryAttempts := Some 3, retrySuccess := Some True\<rparr>),
           tr\<lparr>reported := reported tr @ [Retrying], calls := calls tr + 1\<rparr>)
      | Inl error \<Rightarrow>
          (Inl (error\<lparr>e_retryAttempts := Some 3, e_retrySuccess := Some False\<rparr>),
           tr\<lparr>reported := reported tr @ [Retrying], calls := calls tr + 1\<rparr>))"
  by (subst retry_loop.simps) (simp add: MAX_RETRIES_def split: sum.splits)

lemma retry_loop_second:
  "retry_loop call rand (Suc 0) retried lastError tr =
     (case call (Suc 0) of
        Inr result \<Rightarrow>
          (Inr (result\<lparr>retryAttempts := Some (Suc 0), retrySuccess := Some True\<rparr>),
           tr\<lparr>reported := reported tr @ [Retrying], calls := calls tr + 1\<rparr>)
      | Inl error \<Rightarrow>
          retry_loop call rand 2 (Suc 0) (Some error)
            (tr\<lparr>reported := reported tr @ [Retrying], calls := calls tr + 1,
                delays := delays tr @ [delayWithJitter (Suc 0) (rand (Suc 0))]\<rparr>))"
  by (subst retry_loop.simps)
    (simp add: MAX_RETRIES_def numeral_2_eq_2 [symmetric] split: sum.splits)

lemma retry_loop_third:
  "retry_loop call rand 2 retried lastError tr =
     (case call 2 of
        Inr result \<Rightarrow>
          (Inr (result\<lparr>retryAttempts := Some 2, retrySuccess := Some True\<rparr>),
           tr\<lparr>reported := reported tr @ [Retrying], calls := calls tr + 1\<rparr>)
      | Inl error \<Rightarrow>
          retry_loop call rand 3 2 (Some error)
            (tr\<lparr>reported := reported tr @ [Retrying], calls := calls tr + 1,
                delays := delays tr @ [delayWithJitter 2 (rand 2)]\<rparr>))"
  by (subst retry_loop.simps) (simp add: MAX_RETRIES_def split: sum.splits)

lemma retry_loop_first:
  "retry_loop call rand 0 0 lastError tr =
     (case call 0 of
        Inr result \<Rightarrow> (Inr result, tr\<lparr>calls := calls tr + 1\<rparr>)
      | Inl error \<Rightarrow>
          retry_loop call rand (Suc 0) 0 (Some error)
            (tr\<lparr>calls := calls tr + 1, delays := delays tr @ [delayWithJitter 0 (rand 0)]\<rparr>))"
  by (subst retry_loop.simps) (simp add: MAX_RETRIES_def split: sum.splits)

lemmas retry_unfold =
  processChunkWithRetry_def retry_loop_first retry_loop_second retry_loop_third retry_loop_last

lemma exponentialDelay_values:
  "exponentialDelay 0 = 1000" "exponentialDelay (Suc 0) = 2000" "exponentialDelay 2 = 4000"
  by (simp_all add: exponentialDelay_def MAX_DELAY_def BASE_DELAY_def)

text \<open>
  C3: the controller calls the executor at most 4 times. When the first two calls fail and
  the third succeeds, it returns the third call's result with \<open>retryAttempts = 2\<close> and
  \<open>retrySuccess = true\<close>, after 3 calls. When all four calls fail, it throws the fourth
  call's error with \<open>retryAttempts = 3\<close> and \<open>retrySuccess = false\<close>, after exactly 4 calls.
\<close>

theorem retry_controller:
  "calls (snd (processChunkWithRetry call rand)) \<le> 4 \<and>
   (call 0 = Inl e0 \<and> call 1 = Inl e1 \<and> call 2 = Inr result \<longrightarrow>
      fst (processChunkWithRetry call rand) =
        Inr (result\<lparr>retryAttempts := Some 2, retrySuccess := Some True\<rparr>) \<and>
      calls (snd (processChunkWithRetry call rand)) = 3) \<and>
   (call 0 = Inl e0 \<and> call 1 = Inl e1 \<and> call 2 = Inl e2 \<and> call 3 = Inl e3 \<longrightarrow>
      fst (processChunkWithRetry call rand) =
        Inl (e3\<lparr>e_retryAttempts := Some 3, e_retrySuccess := Some False\<rparr>) \<and>
      calls (snd (processChunkWithRetry call rand)) = 4)"
proof -
  have bound: "calls (snd (processChunkWithRetry call rand)) \<le> 4"
    by (simp add: retry_unfold split: sum.splits)
  have third: "fst (processChunkWithRetry call rand) =
        Inr (result\<lparr>retryAttempts := Some 2, retrySuccess := Some True\<rparr>) \<and>
      calls (snd (processChunkWithRetry call rand)) = 3"
    if "call 0 = Inl e0" "call 1 = Inl e1" "call 2 = Inr result"
    using that by (simp add: retry_unfold)
  have never: "fst (processChunkWithRetry call rand) =
        Inl (e3\<lparr>e_retryAttempts := Some 3, e_retrySuccess := Some False\<rparr>) \<and>
      calls (snd (processChunkWithRetry call rand)) = 4"
    if "call 0 = Inl e0" "call 1 = Inl e1" "call 2 = Inl e2" "call 3 = Inl e3"
    using that by (simp add: retry_unfold)
  from bound third never show ?thesis by blast
qed

theorem retry_controller_witness:
  "fst (processChunkWithRetry
          (\<lambda>k. if k < 2 then Inl (Error ''down'')
                else Inr (parseReviewResponse [] [] 1 1)) (\<lambda>k. 0)) =
     Inr ((parseReviewResponse [] [] 1 1)\<lparr>retryAttempts := Some 2, retrySuccess := Some True\<rparr>) \<and>
   calls (snd (processChunkWithRetry
          (\<lambda>k. if k < 2 then Inl (Error ''down'')
                else Inr (parseReviewResponse [] [] 1 1)) (\<lambda>k. 0))) = 3 \<and>
   fst (processChunkWithRetry (\<lambda>k. Inl (Error ''down'')) (\<lambda>k. 0)) =
     Inl ((Error ''down'')\<lparr>e_retryAttempts := Some 3, e_retrySuccess := Some False\<rparr>) \<and>
   calls (snd (processChunkWithRetry (\<lambda>k. Inl (Error ''down'')) (\<lambda>k. 0))) = 4"
  using
    retry_controller [of "\<lambda>k. if k < 2 then Inl (Error ''down'')
                else Inr (parseReviewResponse [] [] 1 1)" "\<lambda>k. 0"
      "Error ''down''" "Error ''down''" "parseReviewResponse [] [] 1 1"]
    retry_controller [of "\<lambda>k. Inl (Error ''down'')" "\<lambda>k. 0"
      "Error ''down''" "Error ''down''" _ "Error ''down''" "Error ''down''"]
  by simp

text \<open>
  C4, on the code: the delay before retry \<open>k\<close> is the base \<open>min(10000, 1000 * 2^(k-1))\<close> plus
  \<open>0.2 * base * (r - 0.5)\<close>, floored at 100. For \<open>r\<close> in \<open>[0, 1)\<close> that is at most 10% away from
  the base, so the delay never leaves the plus-or-minus 10% band: half of the band of 20%
  the claim and the source's comment give.
\<close>

theorem backoff_delay_band:
  "(call 0 = Inl e0 \<and> call 1 = Inl e1 \<and> call 2 = Inl e2 \<longrightarrow>
      delays (snd (processChunkWithRetry call rand)) =
        [delayWithJitter 0 (rand 0), delayWithJitter 1 (rand 1), delayWithJitter 2 (rand 2)]) \<and>
   (1 \<le> k \<and> k \<le> 3 \<and> 0 \<le> r \<and> r < 1 \<longrightarrow>
      delayWithJitter (k - 1) r =
        max 100 (min 10000 (1000 * 2 ^ (k - 1)) +
                 0.2 * min 10000 (1000 * 2 ^ (k - 1)) * (r - 0.5)) \<and>
      \<bar>delayWithJitter (k - 1) r - min 10000 (1000 * 2 ^ (k - 1))\<bar>
        \<le> 0.1 * min 10000 (1000 * 2 ^ (k - 1)) \<and>
      100 \<le> delayWithJitter (k - 1) r)"
proof (rule conjI; rule impI)
  assume "call 0 = Inl e0 \<and> call 1 = Inl e1 \<and> call 2 = Inl e2"
  then show "delays (snd (processChunkWithRetry call rand)) =
        [delayWithJitter 0 (rand 0), delayWithJitter 1 (rand 1), delayWithJitter 2 (rand 2)]"
    by (simp add: retry_unfold split: sum.splits)
next
  assume h: "1 \<le> k \<and> k \<le> 3 \<and> 0 \<le> r \<and> r < 1"
  then consider "k = 1" | "k = 2" | "k = 3"
    by force
  then show "delayWithJitter (k - 1) r =
        max 100 (min 10000 (1000 * 2 ^ (k - 1)) +
                 0.2 * min 10000 (1000 * 2 ^ (k - 1)) * (r - 0.5)) \<and>
      \<bar>delayWithJitter (k - 1) r - min 10000 (1000 * 2 ^ (k - 1))\<bar>
        \<le> 0.1 * min 10000 (1000 * 2 ^ (k - 1)) \<and>
      100 \<le> delayWithJitter (k - 1) r"
  proof cases
    case 1
    with h show ?thesis
      by (simp add: delayWithJitter_def jitter_def exponentialDelay_values) argo
  next
    case 2
    with h show ?thesis
      by (simp add: delayWithJitter_def jitter_def exponentialDelay_values) argo
  next
    case 3
    with h show ?thesis
      by (simp add: delayWithJitter_def jitter_def exponentialDelay_values) argo
  qed
qed

theorem backoff_delay_band_witness:
  "delays (snd (processChunkWithRetry (\<lambda>k. Inl (Error ''down'')) (\<lambda>k. 0))) = [900, 1800, 3600] \<and>
   delayWithJitter 0 0 = 900 \<and> \<bar>delayWithJitter 0 0 - 1000\<bar> \<le> (100 :: real) \<and>
   delayWithJitter 0 0 \<noteq> 800"
  using backoff_delay_band [of "\<lambda>k. Inl (Error ''down'')" "Error ''down''" "Error ''down''"
      "Error ''down''" "\<lambda>k. 0" 1 0]
  by (simp add: delayWithJitter_def jitter_def exponentialDelay_values)

section \<open>The section extractor on its example\<close>

lemma example_summary:
  "extractSection example_review ''Summary'' (Some ''Issues'') = ''All good''"
  unfolding example_review_def by code_simp

lemma example_issues_section:
  "extractSection example_review ''Issues'' (Some ''Recommendations'') = example_issues"
  unfolding example_review_def example_issues_def by code_simp

lemma example_recommendations:
  "extractSection example_review ''Recommendations'' (Some ''Strengths'') = ''Add tests''"
  unfolding example_review_def by code_simp

lemma example_strengths:
  "extractSection example_review ''Strengths'' None = ''Clear naming''"
  unfolding example_review_def by code_simp

lemma example_critical:
  "extractIssuesBySeverity example_issues ''Critical'' = [''1. SQL injection'']"
  unfolding example_issues_def by code_simp

lemma example_high:
  "extractIssuesBySeverity example_issues ''High'' = [''1. No input validation'']"
  unfolding example_issues_def by code_simp

lemma example_medium:
  "extractIssuesBySeverity example_issues ''Medium'' = []"
  unfolding example_issues_def by code_simp

lemma example_low:
  "extractIssuesBySeverity example_issues ''Low'' = []"
  unfolding example_issues_def by code_simp

text \<open>
  C6: parsing the example text gives the summary \<open>All good\<close>, the critical issue
  \<open>1. SQL injection\<close>, the high issue \<open>1. No input validation\<close>, no medium and no low issue,
  the recommendations \<open>Add tests\<close> and the strengths \<open>Clear naming\<close>.
\<close>

theorem parse_example:
  "parseReviewResponse example_review areas num tot =
     \<lparr>model = ''deepseek-chat'', focusAreas = areas, summary = ''All good'',
      issues = \<lparr>critical = [''1. SQL injection''], high = [''1. No input validation''],
                 medium = [], low = []\<rparr>,
      recommendations = ''Add tests'', strengths = ''Clear naming'',
      rawResponse = example_review, chunkNumber = Some num, totalChunks = tot,
      retryAttempts = None, retrySuccess = None\<rparr> \<and>
   example_review = ''## Summary\<newline>All good\<newline>## Issues\<newline>### Critical\<newline>1. SQL injection\<newline>### High\<newline>1. No input validation\<newline>## Recommendations\<newline>Add tests\<newline>## Strengths\<newline>Clear naming''"
  by (simp add: parseReviewResponse_def example_summary example_issues_section
      example_recommendations example_strengths example_critical example_high example_medium
      example_low)
    (simp add: example_review_def)

section \<open>Properties of the request executor\<close>

lemma error_response_try_throws: "\<exists>e. error_response_try parse status body = Inl e"
  by (simp add: error_response_try_def split: option.splits sum.splits)

lemma error_response_raw:
  "error_response parse status statusText body =
     Inl (DeepseekApiError
            (''DeepSeek API error: '' @ show_nat status @ '' '' @ statusText @ '' - '' @ body)
            status)"
  using error_response_try_throws [of parse status body]
  by (auto simp: error_response_def)

text \<open>
  C5, on the code: the detailed error is thrown inside the \<open>try\<close> block whose \<open>catch\<close> then
  replaces it, so the error of a response that is not ok always carries the status code
  and the raw body text, also when the body is JSON. For the status 401 and the body
  \<open>{"error":{"message":"Invalid \"key\""}}\<close> the parsed detail is \<open>Invalid "key"\<close>; the
  message is the raw one and does not contain it.
\<close>

theorem api_error_detail_lost:
  "reviewCodeChunk (\<lambda>t. if t = example_error_body then Some example_error_json else None)
     (ErrorStatus 401 ''Unauthorized'' example_error_body) areas num tot =
     Inl (DeepseekApiError
            (''DeepSeek API error: 401 Unauthorized - '' @ example_error_body) 401) \<and>
   error_detail example_error_json example_error_body = Inr ''Invalid \"key\"'' \<and>
   \<not> sublist ''Invalid \"key\"''
         (''DeepSeek API error: 401 Unauthorized - '' @ example_error_body) \<and>
   length example_error_body = 39"
proof -
  have "show_nat 401 = ''401''"
    by code_simp
  then have a: "reviewCodeChunk
     (\<lambda>t. if t = example_error_body then Some example_error_json else None)
     (ErrorStatus 401 ''Unauthorized'' example_error_body) areas num tot =
     Inl (DeepseekApiError
            (''DeepSeek API error: 401 Unauthorized - '' @ example_error_body) 401)"
    by (simp add: reviewCodeChunk_def error_response_raw)
  have b: "error_detail example_error_json example_error_body = Inr ''Invalid \"key\"''"
    by (simp add: error_detail_def example_error_json_def)
  have c: "\<not> sublist ''Invalid \"key\"''
         (''DeepSeek API error: 401 Unauthorized - '' @ example_error_body)"
    unfolding example_error_body_def by code_simp
  have d: "length example_error_body = 39"
    by (simp add: example_error_body_def)
  from a b c d show ?thesis by blast
qed

section \<open>Properties of the result merger\<close>

lemma get_severity_push:
  "get_severity sev' (push_issue sev issue acc) =
     get_severity sev' acc @ (if sev' = sev then [issue] else [])"
  by (cases sev; cases sev') simp_all

lemma first_seen_append:
  "first_seen seen (xs @ ys) =
     first_seen seen xs @ first_seen (seen \<union> (normalized \<circ> snd) ` set xs) ys"
proof (induction xs arbitrary: seen)
  case Nil
  then show ?case by simp
next
  case (Cons p xs)
  obtain sev issue where p: "p = (sev, issue)"
    by (cases p) auto
  show ?case
  proof (cases "normalized issue \<in> seen")
    case True
    then have "seen \<union> (normalized \<circ> snd) ` set (p # xs) = seen \<union> (normalized \<circ> snd) ` set xs"
      using p by auto
    with True p Cons.IH [of seen] show ?thesis
      by simp
  next
    case False
    have "insert (normalized issue) seen \<union> (normalized \<circ> snd) ` set xs =
          seen \<union> (normalized \<circ> snd) ` set (p # xs)"
      using p by auto
    with False p Cons.IH [of "insert (normalized issue) seen"] show ?thesis
      by simp
  qed
qed

lemma bucket_append: "bucket sev (xs @ ys) = bucket sev xs @ bucket sev ys"
  by (simp add: bucket_def)

lemma adds_nothing: "adds (\<lambda>st. st) []"
  by (simp add: adds_def bucket_def)

lemma adds_compose:
  assumes F: "adds F T1" and G: "adds G T2"
  shows "adds (\<lambda>st. G (F st)) (T1 @ T2)"
  unfolding adds_def
proof (intro allI conjI)
  fix seen acc
  define p where "p = F (seen, acc)"
  from F have s1: "fst p = seen \<union> (normalized \<circ> snd) ` set T1"
    unfolding adds_def p_def by blast
  from F have a1: "get_severity sev (snd p) =
      get_severity sev acc @ bucket sev (first_seen seen T1)" for sev
    unfolding adds_def p_def by blast
  from G have "fst (G (fst p, snd p)) = fst p \<union> (normalized \<circ> snd) ` set T2"
    unfolding adds_def by blast
  then have s2: "fst (G p) = fst p \<union> (normalized \<circ> snd) ` set T2"
    by simp
  from G have "get_severity sev (snd (G (fst p, snd p))) =
      get_severity sev (snd p) @ bucket sev (first_seen (fst p) T2)" for sev
    unfolding adds_def by blast
  then have a2: "get_severity sev (snd (G p)) =
      get_severity sev (snd p) @ bucket sev (first_seen (fst p) T2)" for sev
    by simp
  show "fst (G (F (seen, acc))) = seen \<union> (normalized \<circ> snd) ` set (T1 @ T2)"
    using s1 s2 unfolding p_def by auto
  fix sev
  show "get_severity sev (snd (G (F (seen, acc)))) =
          get_severity sev acc @ bucket sev (first_seen seen (T1 @ T2))"
    using s1 a1 [of sev] a2 [of sev] unfolding p_def
    by (simp add: first_seen_append bucket_append)
qed

lemma adds_issue: "adds (\<lambda>st. add_issue sev st issue) [(sev, issue)]"
  by (auto simp: adds_def Let_def bucket_def get_severity_push)

lemma adds_issues: "adds (\<lambda>st. foldl (add_issue sev) st xs) (map (Pair sev) xs)"
proof (induction xs rule: rev_induct)
  case Nil
  then show ?case by (simp add: adds_nothing)
next
  case (snoc x xs)
  from adds_compose [OF snoc.IH adds_issue [of sev x]] show ?case
    by simp
qed

lemma adds_severity:
  "adds (\<lambda>st. add_severity result st sev) (map (Pair sev) (get_severity sev (issues result)))"
  using adds_issues [of sev "get_severity sev (issues result)"]
  by (simp add: add_severity_def)

lemma adds_result: "adds (\<lambda>st. add_result st result) (visit_result result)"
proof -
  note s = adds_severity [of result]
  from adds_compose [OF adds_compose [OF adds_compose [OF s [of Critical] s [of High]]
      s [of Medium]] s [of Low]]
  show ?thesis
    by (simp add: add_result_def visit_result_def)
qed

lemma adds_results: "adds (\<lambda>st. foldl add_result st results) (visit_order results)"
proof (induction results rule: rev_induct)
  case Nil
  then show ?case by (simp add: adds_nothing visit_order_def)
next
  case (snoc r rs)
  from adds_compose [OF snoc.IH adds_result [of r]] show ?case
    by (simp add: visit_order_def)
qed

lemma merge_issues_first_seen:
  "get_severity sev (merge_issues results) = bucket sev (first_seen {} (visit_order results))"
  using adds_results [of results]
  by (simp add: adds_def merge_issues_def no_issues_def; cases sev; simp)

lemma first_seen_keys:
  "(normalized \<circ> snd) ` set (first_seen seen T) = (normalized \<circ> snd) ` set T - seen"
proof (induction T arbitrary: seen)
  case Nil
  then show ?case by simp
next
  case (Cons p T)
  obtain sev issue where p: "p = (sev, issue)"
    by (cases p) auto
  with Cons.IH [of seen] Cons.IH [of "insert (normalized issue) seen"] show ?case
    by auto
qed

lemma first_seen_distinct: "distinct (map (normalized \<circ> snd) (first_seen seen T))"
proof (induction T arbitrary: seen)
  case Nil
  then show ?case by simp
next
  case (Cons p T)
  obtain sev issue where p: "p = (sev, issue)"
    by (cases p) auto
  have "normalized issue \<notin> (normalized \<circ> snd) ` set (first_seen (insert (normalized issue) seen) T)"
    by (simp only: first_seen_keys) simp
  with p Cons.IH [of seen] Cons.IH [of "insert (normalized issue) seen"] show ?case
    by auto
qed

lemma severity_cases: "sev = Critical \<or> sev = High \<or> sev = Medium \<or> sev = Low"
  by (cases sev) simp_all

lemma buckets_distinct:
  assumes "distinct (map (normalized \<circ> snd) K)"
  shows "distinct (map normalized
           (bucket Critical K @ bucket High K @ bucket Medium K @ bucket Low K))"
proof -
  have inj: "inj_on (normalized \<circ> snd) (set K)" and d: "distinct K"
    using assms by (auto simp: distinct_map)
  have each: "distinct (map normalized (bucket sev K))" for sev
    using assms by (simp add: bucket_def distinct_map_filter)
  have apart: "set (map normalized (bucket s1 K)) \<inter> set (map normalized (bucket s2 K)) = {}"
    if "s1 \<noteq> s2" for s1 s2
  proof (rule ccontr)
    assume "set (map normalized (bucket s1 K)) \<inter> set (map normalized (bucket s2 K)) \<noteq> {}"
    then obtain p q where pq: "p \<in> set K" "q \<in> set K" "fst p = s1" "fst q = s2"
      "normalized (snd p) = normalized (snd q)"
      by (auto simp: bucket_def)
    with inj have "p = q"
      by (auto simp: inj_on_def)
    with pq that show False
      by simp
  qed
  show ?thesis
    using each apart [of Critical High] apart [of Critical Medium] apart [of Critical Low]
      apart [of High Medium] apart [of High Low] apart [of Medium Low]
    by (simp add: Int_Un_distrib Int_Un_distrib2)
qed

lemma buckets_keys:
  "normalized ` set (bucket Critical K @ bucket High K @ bucket Medium K @ bucket Low K) =
   (normalized \<circ> snd) ` set K"
proof -
  have "set (bucket Critical K @ bucket High K @ bucket Medium K @ bucket Low K) = snd ` set K"
    using severity_cases by (auto simp: bucket_def image_iff) (metis fst_conv snd_conv)+
  then show ?thesis
    by (simp add: image_image)
qed

lemma combine_many:
  assumes "2 \<le> length results"
  shows "\<exists>rep c. combineChunkResults results areas = Inr rep \<and>
           issues rep = merge_issues results \<and>
           issueCount rep = Some c \<and>
           critical c = length (critical (merge_issues results)) \<and>
           high c = length (high (merge_issues results)) \<and>
           medium c = length (medium (merge_issues results)) \<and>
           low c = length (low (merge_issues results)) \<and>
           total_count c =
             length (critical (merge_issues results)) + length (high (merge_issues results)) +
             length (medium (merge_issues results)) + length (low (merge_issues results)) \<and>
           processedChunks rep = Some (length results) \<and>
           totalChunks rep = totalChunks (results ! 0) \<and>
           errors rep = None \<and> partialSuccess rep = None \<and> chunkResults rep = None"
proof -
  from assms obtain a b rest where "results = a # b # rest"
    by (cases results; cases "tl results") auto
  then show ?thesis
    by (simp add: combineChunkResults_def Let_def)
qed

text \<open>
  C7: when two or more chunk results are merged, the issues of each severity are the
  first-seen entries of that severity, in the order they are visited, an entry being kept
  when no earlier issue of any chunk has the same lower-cased, trimmed text; so the kept
  issues have pairwise different normalised texts and cover every normalised text of the
  input, and \<open>issueCount\<close> holds the lengths of the four lists and, as \<open>total\<close>, their sum.
\<close>

theorem merge_deduplicates:
  "2 \<le> length results \<longrightarrow>
     (\<exists>rep c. combineChunkResults results areas = Inr rep \<and> issueCount rep = Some c \<and>
        critical (issues rep) = bucket Critical (first_seen {} (visit_order results)) \<and>
        high (issues rep) = bucket High (first_seen {} (visit_order results)) \<and>
        medium (issues rep) = bucket Medium (first_seen {} (visit_order results)) \<and>
        low (issues rep) = bucket Low (first_seen {} (visit_order results)) \<and>
        distinct (map normalized (critical (issues rep) @ high (issues rep) @
                                  medium (issues rep) @ low (issues rep))) \<and>
        normalized ` set (critical (issues rep) @ high (issues rep) @
                          medium (issues rep) @ low (issues rep)) =
          (normalized \<circ> snd) ` set (visit_order results) \<and>
        critical c = length (critical (issues rep)) \<and>
        high c = length (high (issues rep)) \<and>
        medium c = length (medium (issues rep)) \<and>
        low c = length (low (issues rep)) \<and>
        total_count c = length (critical (issues rep)) + length (high (issues rep)) +
                        length (medium (issues rep)) + length (low (issues rep)))"
proof
  assume "2 \<le> length results"
  from combine_many [OF this, of areas] obtain rep c where
    rep: "combineChunkResults results areas = Inr rep" "issues rep = merge_issues results"
      "issueCount rep = Some c"
    and counts: "critical c = length (critical (merge_issues results))"
      "high c = length (high (merge_issues results))"
      "medium c = length (medium (merge_issues results))"
      "low c = length (low (merge_issues results))"
      "total_count c =
         length (critical (merge_issues results)) + length (high (merge_issues results)) +
         length (medium (merge_issues results)) + length (low (merge_issues results))"
    by blast
  let ?K = "first_seen {} (visit_order results)"
  have b: "critical (issues rep) = bucket Critical ?K" "high (issues rep) = bucket High ?K"
    "medium (issues rep) = bucket Medium ?K" "low (issues rep) = bucket Low ?K"
    using merge_issues_first_seen [of Critical results] merge_issues_first_seen [of High results]
      merge_issues_first_seen [of Medium results] merge_issues_first_seen [of Low results]
    by (simp_all add: rep(2))
  have d: "distinct (map normalized (critical (issues rep) @ high (issues rep) @
                                  medium (issues rep) @ low (issues rep)))"
    unfolding b by (rule buckets_distinct) (rule first_seen_distinct)
  have k: "normalized ` set (critical (issues rep) @ high (issues rep) @
                          medium (issues rep) @ low (issues rep)) =
          (normalized \<circ> snd) ` set (visit_order results)"
    unfolding b buckets_keys by (simp only: first_seen_keys Diff_empty)
  from rep(1) rep(3) b d k counts
  show "\<exists>rep c. combineChunkResults results areas = Inr rep \<and> issueCount rep = Some c \<and>
        critical (issues rep) = bucket Critical (first_seen {} (visit_order results)) \<and>
        high (issues rep) = bucket High (first_seen {} (visit_order results)) \<and>
        medium (issues rep) = bucket Medium (first_seen {} (visit_order results)) \<and>
        low (issues rep) = bucket Low (first_seen {} (visit_order results)) \<and>
        distinct (map normalized (critical (issues rep) @ high (issues rep) @
                                  medium (issues rep) @ low (issues rep))) \<and>
        normalized ` set (critical (issues rep) @ high (issues rep) @
                          medium (issues rep) @ low (issues rep)) =
          (normalized \<circ> snd) ` set (visit_order results) \<and>
        critical c = length (critical (issues rep)) \<and>
        high c = length (high (issues rep)) \<and>
        medium c = length (medium (issues rep)) \<and>
        low c = length (low (issues rep)) \<and>
        total_count c = length (critical (issues rep)) + length (high (issues rep)) +
                        length (medium (issues rep)) + length (low (issues rep))"
    by (intro exI [of _ rep] exI [of _ c]) (simp add: rep(2))
qed

lemma example_first_seen:
  "first_seen {} (visit_order [example_first, example_second]) =
     [(High, ''Missing null check''), (Low, ''Long method'')]"
  unfolding example_first_def example_second_def by code_simp

theorem merge_deduplicates_witness:
  "\<exists>rep. combineChunkResults [example_first, example_second] [] = Inr rep \<and>
     high (issues example_first) = [''Missing null check''] \<and>
     high (issues example_second) = [''missing NULL check ''] \<and>
     critical (issues rep) = [] \<and> high (issues rep) = [''Missing null check''] \<and>
     medium (issues rep) = [] \<and> low (issues rep) = [''Long method''] \<and>
     map_option total_count (issueCount rep) = Some 2"
proof -
  have "2 \<le> length [example_first, example_second]"
    by simp
  with merge_deduplicates [of "[example_first, example_second]" "[]"]
  obtain rep c where r: "combineChunkResults [example_first, example_second] [] = Inr rep"
    "issueCount rep = Some c"
    "critical (issues rep) = bucket Critical (first_seen {} (visit_order [example_first, example_second]))"
    "high (issues rep) = bucket High (first_seen {} (visit_order [example_first, example_second]))"
    "medium (issues rep) = bucket Medium (first_seen {} (visit_order [example_first, example_second]))"
    "low (issues rep) = bucket Low (first_seen {} (visit_order [example_first, example_second]))"
    "total_count c = length (critical (issues rep)) + length (high (issues rep)) +
                        length (medium (issues rep)) + length (low (issues rep))"
    by blast
  have i: "critical (issues rep) = []" "high (issues rep) = [''Missing null check'']"
    "medium (issues rep) = []" "low (issues rep) = [''Long method'']"
    unfolding r example_first_seen by (simp_all add: bucket_def)
  have e: "high (issues example_first) = [''Missing null check'']"
    "high (issues example_second) = [''missing NULL check '']"
    by (simp_all add: example_first_def example_second_def)
  from r(1) r(2) r(7) i e show ?thesis
    by simp
qed

text \<open>
  C9, on the code: the report that merging two or more chunk results returns has
  \<open>issueCount\<close>, \<open>processedChunks\<close> and \<open>totalChunks\<close>, the last taken from the first result,
  but no \<open>chunkResults\<close> field (and no \<open>errors\<close> or \<open>partialSuccess\<close>, which only a partial
  failure adds later): the object that holds \<open>chunkResults\<close> is built and never returned,
  so the formatter counts no recovered chunk.
\<close>

theorem merged_report_fields:
  "2 \<le> length results \<longrightarrow>
     (\<exists>rep. combineChunkResults results areas = Inr rep \<and>
        chunkResults rep = None \<and> retrySuccessCount rep = 0 \<and>
        issueCount rep \<noteq> None \<and> processedChunks rep = Some (length results) \<and>
        totalChunks rep = totalChunks (results ! 0) \<and>
        errors rep = None \<and> partialSuccess rep = None)"
proof
  assume "2 \<le> length results"
  from combine_many [OF this, of areas] obtain rep c where
    "combineChunkResults results areas = Inr rep" "issueCount rep = Some c"
    "processedChunks rep = Some (length results)" "totalChunks rep = totalChunks (results ! 0)"
    "errors rep = None" "partialSuccess rep = None" "chunkResults rep = None"
    by blast
  then show "\<exists>rep. combineChunkResults results areas = Inr rep \<and>
        chunkResults rep = None \<and> retrySuccessCount rep = 0 \<and>
        issueCount rep \<noteq> None \<and> processedChunks rep = Some (length results) \<and>
        totalChunks rep = totalChunks (results ! 0) \<and>
        errors rep = None \<and> partialSuccess rep = None"
    by (intro exI [of _ rep]) (simp add: retrySuccessCount_def)
qed

theorem merged_report_fields_witness:
  "\<exists>rep. combineChunkResults [example_first, example_second] [] = Inr rep \<and>
     chunkResults rep = None \<and> processedChunks rep = Some 2 \<and> totalChunks rep = 2"
proof -
  have "2 \<le> length [example_first, example_second]"
    by simp
  with merged_report_fields [of "[example_first, example_second]" "[]"]
  obtain rep where "combineChunkResults [example_first, example_second] [] = Inr rep"
    "chunkResults rep = None" "processedChunks rep = Some (length [example_first, example_second])"
    "totalChunks rep = totalChunks ([example_first, example_second] ! 0)"
    by blast
  then show ?thesis
    by (simp add: example_first_def)
qed

section \<open>Properties of the orchestrator\<close>

lemma chunk_step_current: "snd (chunk_step n st l) \<noteq> []"
  by (cases st) simp

lemma chunk_loop_current: "ls \<noteq> [] \<or> snd st \<noteq> [] \<Longrightarrow> snd (chunk_loop n ls st) \<noteq> []"
proof (induction ls arbitrary: st)
  case Nil
  then show ?case by simp
next
  case (Cons l ls)
  have "snd (chunk_step n st l) \<noteq> []"
    by (rule chunk_step_current)
  with Cons.IH [of "chunk_step n st l"] show ?case
    by simp
qed

lemma chunks_nonempty: "splitCodeIntoChunks code n \<noteq> []"
proof (cases "length code \<le> n")
  case True
  then show ?thesis by (simp add: splitCodeIntoChunks_def)
next
  case False
  have "snd (chunk_loop n (split_nl code) ([], [])) \<noteq> []"
    using chunk_loop_current [of "split_nl code" "([], [])" n] split_nl_nonempty [of code]
    by simp
  with False show ?thesis
    by (auto simp: splitCodeIntoChunks_def split: prod.splits)
qed

text \<open>The tasks settle in some order of the chunk indices.\<close>

lemma settle_order_set: "set (settle_order env n) = {0..<n}"
  by (simp add: settle_order_def)

lemma settle_order_length: "length (settle_order env n) = n"
  by (simp add: settle_order_def)

lemma settle_order_nonempty: "0 < n \<Longrightarrow> settle_order env n \<noteq> []"
  using settle_order_length [of env n] by auto

text \<open>What the shared arrays hold after the tasks of \<open>order\<close> have settled.\<close>

lemma settle_fold:
  "foldl (settle env chunks areas) st order =
     st\<lparr>o_chunkResults := o_chunkResults st @
          map (\<lambda>i. projr (chunk_task env chunks areas i))
            (filter (\<lambda>i. \<not> isl (chunk_task env chunks areas i)) order),
        o_errors := o_errors st @
          map (\<lambda>i. failure_entry chunks i (projl (chunk_task env chunks areas i)))
            (filter (\<lambda>i. isl (chunk_task env chunks areas i)) order),
        o_chunkStatus :=
          foldl (\<lambda>s i. s[i := if isl (chunk_task env chunks areas i) then Failed else Completed])
            (o_chunkStatus st) order\<rparr>"
proof (induction order arbitrary: st)
  case Nil
  then show ?case by simp
next
  case (Cons i order)
  show ?case
  proof (cases "chunk_task env chunks areas i")
    case (Inl e)
    then have "settle env chunks areas st i =
        st\<lparr>o_errors := o_errors st @ [failure_entry chunks i e],
           o_chunkStatus := (o_chunkStatus st)[i := Failed]\<rparr>"
      by (simp add: settle_def)
    with Inl show ?thesis
      by (simp add: Cons.IH)
  next
    case (Inr r)
    then have "settle env chunks areas st i =
        st\<lparr>o_chunkResults := o_chunkResults st @ [r],
           o_chunkStatus := (o_chunkStatus st)[i := Completed]\<rparr>"
      by (simp add: settle_def)
    with Inr show ?thesis
      by (simp add: Cons.IH)
  qed
qed

lemma status_fold_length: "length (foldl (\<lambda>s i. s[i := g i]) s order) = length s"
  by (induction order arbitrary: s) simp_all

lemma status_fold_nth:
  "j < length s \<Longrightarrow>
   foldl (\<lambda>s i. s[i := g i]) s order ! j = (if j \<in> set order then g j else s ! j)"
proof (induction order arbitrary: s rule: rev_induct)
  case Nil
  then show ?case by simp
next
  case (snoc x xs)
  from snoc.IH [OF snoc.prems] snoc.prems show ?case
    by (cases "x = j") (simp_all add: status_fold_length)
qed

lemma status_fold_all:
  assumes "set order = {0..<n}" "length s = n"
  shows "foldl (\<lambda>s i. s[i := g i]) s order = map g [0..<n]"
proof (rule nth_equalityI)
  show "length (foldl (\<lambda>s i. s[i := g i]) s order) = length (map g [0..<n])"
    using assms by (simp add: status_fold_length)
next
  fix j
  assume "j < length (foldl (\<lambda>s i. s[i := g i]) s order)"
  then have j: "j < n"
    using assms by (simp add: status_fold_length)
  with assms show "foldl (\<lambda>s i. s[i := g i]) s order ! j = map g [0..<n] ! j"
    by (simp add: status_fold_nth)
qed

lemma run_chunks_eq:
  "run_chunks env chunks areas =
     \<lparr>o_chunkResults =
        map (\<lambda>i. projr (chunk_task env chunks areas i))
          (filter (\<lambda>i. \<not> isl (chunk_task env chunks areas i))
             (settle_order env (length chunks))),
      o_errors =
        map (\<lambda>i. failure_entry chunks i (projl (chunk_task env chunks areas i)))
          (filter (\<lambda>i. isl (chunk_task env chunks areas i))
             (settle_order env (length chunks))),
      o_chunkStatus =
        map (\<lambda>i. if isl (chunk_task env chunks areas i) then Failed else Completed)
          [0..<length chunks]\<rparr>"
  unfolding run_chunks_def settle_fold
  by (simp add: status_fold_all [OF settle_order_set])

lemma combine_nonempty:
  assumes "results \<noteq> []"
  shows "\<exists>rep. combineChunkResults results areas = Inr rep \<and>
           processedChunks rep = (if length results = 1 then None else Some (length results)) \<and>
           errors rep = None \<and> partialSuccess rep = None \<and> chunkResults rep = None"
proof (cases "length results = 1")
  case True
  then show ?thesis
    by (simp add: combineChunkResults_def as_report_def)
next
  case False
  with assms have "2 \<le> length results"
    by (cases results) (auto simp: Suc_le_eq)
  from combine_many [OF this, of areas] False show ?thesis
    by auto
qed

lemma enhance_fields:
  "processedChunks (enhanceOutputFormat r) = processedChunks r"
  "errors (enhanceOutputFormat r) = errors r"
  "partialSuccess (enhanceOutputFormat r) = partialSuccess r"
  "chunkResults (enhanceOutputFormat r) = chunkResults r"
  by (simp_all add: enhanceOutputFormat_def Let_def)

lemma enhance_summary:
  "chunkResults r = None \<Longrightarrow>
   summary (enhanceOutputFormat r) =
     quickStats r @ keyIssues r @ ''\<newline>**\<newline>\<newline>'' @ summary r"
  by (simp add: enhanceOutputFormat_def retrySuccessCount_def)

lemma quickStats_prefix:
  "prefix ''\<newline>## Quick Stats\<newline>- **Total Issues**: '' (quickStats r)"
  by (simp add: quickStats_def Let_def)

section \<open>The review as a whole\<close>

lemma substring_take: "substring s 0 n = take n s"
  by (simp add: substring_def)

lemma settle_order_filter_length:
  "length (filter P (settle_order env n)) = length (filter P [0..<n])"
  by (simp add: settle_order_def filter_sort)

lemma combined_report_cases:
  assumes "combined_report st areas n = Inr pre"
  shows "\<exists>r0. combineChunkResults (o_chunkResults st) areas = Inr r0 \<and>
           chunkResults r0 = None \<and> errors r0 = None \<and>
           processedChunks r0 =
             (if length (o_chunkResults st) = 1 then None
              else Some (length (o_chunkResults st))) \<and>
           (if o_errors st = [] then pre = r0
            else pre = r0\<lparr>errors := Some (o_errors st), partialSuccess := Some True,
                          summary := partial_note (length (o_errors st)) n @ summary r0\<rparr>)"
proof (cases "o_chunkResults st = []")
  case True
  with assms show ?thesis
    by (cases "o_errors st = []")
      (simp_all add: combined_report_def combineChunkResults_def)
next
  case False
  from combine_nonempty [OF False, of areas] obtain r0 where
    r0: "combineChunkResults (o_chunkResults st) areas = Inr r0"
      "processedChunks r0 =
         (if length (o_chunkResults st) = 1 then None else Some (length (o_chunkResults st)))"
      "errors r0 = None" "chunkResults r0 = None"
    by blast
  with assms False show ?thesis
    by (cases "o_errors st = []") (auto simp: combined_report_def)
qed

text \<open>The outcome of a run with the key present, by who failed.\<close>

lemma review_outcome:
  assumes key: "apiKey cfg \<noteq> None"
    and chunks: "chunks = splitCodeIntoChunks code 3000"
    and order: "order = settle_order env (length chunks)"
    and task: "task = chunk_task env chunks areas"
    and st: "st = run_chunks env chunks areas"
  shows "1 \<le> length chunks"
    and "set order = {0..<length chunks}"
    and "length (o_chunkResults st) + length (o_errors st) = length chunks"
    and "o_chunkStatus st =
           map (\<lambda>i. if isl (task i) then Failed else Completed) [0..<length chunks]"
    and "(\<forall>i<length chunks. isl (task i)) \<Longrightarrow>
           reviewWithDeepseek env code areas cfg =
             Inl (Error (''All '' @ show_nat (length chunks) @
                         '' chunks failed to process. First error: '' @
                         e_message (projl (task (hd order)))))"
    and "(\<exists>i<length chunks. isl (task i)) \<Longrightarrow> (\<exists>i<length chunks. \<not> isl (task i)) \<Longrightarrow>
           \<exists>rep. reviewWithDeepseek env code areas cfg = Inr rep \<and>
             partialSuccess rep = Some True \<and>
             errors rep =
               Some (map (\<lambda>i. \<lparr>f_chunkNumber = i + 1, f_error = e_message (projl (task i)),
                                f_code = take 100 (chunks ! i) @ ''...''\<rparr>)
                       (filter (\<lambda>i. isl (task i)) order)) \<and>
             length (filter (\<lambda>i. isl (task i)) order) =
               length (filter (\<lambda>i. isl (task i)) [0..<length chunks]) \<and>
             processedChunks rep =
               (if length (filter (\<lambda>i. \<not> isl (task i)) [0..<length chunks]) = 1 then None
                else Some (length (filter (\<lambda>i. \<not> isl (task i)) [0..<length chunks])))"
proof -
  let ?n = "length chunks"
  let ?R = "map (\<lambda>i. projr (task i)) (filter (\<lambda>i. \<not> isl (task i)) order)"
  let ?E = "map (\<lambda>i. failure_entry chunks i (projl (task i))) (filter (\<lambda>i. isl (task i)) order)"
  have st_eq: "o_chunkResults st = ?R" "o_errors st = ?E"
    "o_chunkStatus st = map (\<lambda>i. if isl (task i) then Failed else Completed) [0..<?n]"
    unfolding st order task by (simp_all add: run_chunks_eq)
  have ne: "chunks \<noteq> []"
    unfolding chunks by (rule chunks_nonempty)
  then show n: "1 \<le> ?n"
    by (simp add: Suc_le_eq)
  show ord: "set order = {0..<?n}"
    unfolding order by (rule settle_order_set)
  have len: "length order = ?n"
    unfolding order by (rule settle_order_length)
  show "length (o_chunkResults st) + length (o_errors st) = ?n"
    using sum_length_filter_compl [of "\<lambda>i. isl (task i)" order] len
    by (simp add: st_eq)
  show "o_chunkStatus st = map (\<lambda>i. if isl (task i) then Failed else Completed) [0..<?n]"
    by (rule st_eq(3))
  have review: "reviewWithDeepseek env code areas cfg =
      (case combined_report st areas ?n of
         Inl e \<Rightarrow> Inl e | Inr r \<Rightarrow> Inr (enhanceOutputFormat r))"
    using key by (auto simp: reviewWithDeepseek_def Let_def chunks st)
  show "reviewWithDeepseek env code areas cfg =
             Inl (Error (''All '' @ show_nat ?n @
                         '' chunks failed to process. First error: '' @
                         e_message (projl (task (hd order)))))"
    if all: "\<forall>i<?n. isl (task i)"
  proof -
    from all ord have f: "filter (\<lambda>i. isl (task i)) order = order"
      "filter (\<lambda>i. \<not> isl (task i)) order = []"
      by (auto simp: filter_empty_conv)
    from n len obtain i rest where o: "order = i # rest"
      by (cases order) auto
    have none: "o_chunkResults st = []"
      and eo: "o_errors st = map (\<lambda>i. failure_entry chunks i (projl (task i))) order"
      by (simp_all add: st_eq f)
    have e0: "0 < length (o_errors st)" "length (o_errors st) = ?n"
      "f_error (o_errors st ! 0) = e_message (projl (task (hd order)))"
      using o len ne by (simp_all add: eo failure_entry_def)
    have "combined_report st areas ?n =
        Inl (Error (''All '' @ show_nat ?n @ '' chunks failed to process. First error: '' @
                    e_message (projl (task (hd order)))))"
      unfolding combined_report_def using ne by (simp add: none e0)
    then show ?thesis
      by (simp add: review)
  qed
  show "\<exists>rep. reviewWithDeepseek env code areas cfg = Inr rep \<and>
             partialSuccess rep = Some True \<and>
             errors rep =
               Some (map (\<lambda>i. \<lparr>f_chunkNumber = i + 1, f_error = e_message (projl (task i)),
                                f_code = take 100 (chunks ! i) @ ''...''\<rparr>)
                       (filter (\<lambda>i. isl (task i)) order)) \<and>
             length (filter (\<lambda>i. isl (task i)) order) =
               length (filter (\<lambda>i. isl (task i)) [0..<?n]) \<and>
             processedChunks rep =
               (if length (filter (\<lambda>i. \<not> isl (task i)) [0..<?n]) = 1 then None
                else Some (length (filter (\<lambda>i. \<not> isl (task i)) [0..<?n])))"
    if some: "\<exists>i<?n. isl (task i)" and other: "\<exists>i<?n. \<not> isl (task i)"
  proof -
    from some ord have E: "o_errors st \<noteq> []"
      by (auto simp: st_eq filter_empty_conv)
    from other ord have R: "o_chunkResults st \<noteq> []"
      by (auto simp: st_eq filter_empty_conv)
    have lenR: "length (o_chunkResults st) = length (filter (\<lambda>i. \<not> isl (task i)) [0..<?n])"
      unfolding order by (simp add: st_eq order settle_order_filter_length)
    have lenE: "length (filter (\<lambda>i. isl (task i)) order) =
        length (filter (\<lambda>i. isl (task i)) [0..<?n])"
      unfolding order by (rule settle_order_filter_length)
    from combine_nonempty [OF R, of areas] obtain r0 where
      r0: "combineChunkResults (o_chunkResults st) areas = Inr r0"
        "processedChunks r0 =
           (if length (o_chunkResults st) = 1 then None else Some (length (o_chunkResults st)))"
      by blast
    let ?pre = "r0\<lparr>errors := Some (o_errors st), partialSuccess := Some True,
                    summary := partial_note (length (o_errors st)) ?n @ summary r0\<rparr>"
    have "combined_report st areas ?n = Inr ?pre"
      using E R r0(1) by (simp add: combined_report_def)
    then have rep: "reviewWithDeepseek env code areas cfg = Inr (enhanceOutputFormat ?pre)"
      by (simp add: review)
    have entries: "o_errors st =
        map (\<lambda>i. \<lparr>f_chunkNumber = i + 1, f_error = e_message (projl (task i)),
                   f_code = take 100 (chunks ! i) @ ''...''\<rparr>)
          (filter (\<lambda>i. isl (task i)) order)"
      by (simp add: st_eq failure_entry_def substring_take)
    show ?thesis
      using rep r0(2) lenR lenE entries
      by (intro exI [of _ "enhanceOutputFormat ?pre"]) (simp add: enhance_fields)
  qed
qed

section \<open>The example runs, evaluated\<close>

lemma split_nl_single: "nl \<notin> set l \<Longrightarrow> split_nl l = [l]"
  by (induction l) auto

lemma split_nl_line: "nl \<notin> set l \<Longrightarrow> split_nl (l @ nl # rest) = l # split_nl rest"
  by (induction l) auto

lemma two_chunks:
  "splitCodeIntoChunks two_chunk_code 3000 = [replicate 3000 (CHR ''a'') @ [nl], ''b'' @ [nl]]"
proof -
  have "split_nl two_chunk_code = [replicate 3000 (CHR ''a''), ''b'']"
    using split_nl_line [of "replicate 3000 (CHR ''a'')" "''b''"] split_nl_single [of "''b''"]
    by (simp add: two_chunk_code_def nl_def)
  moreover have "length two_chunk_code = 3002"
    by (simp add: two_chunk_code_def)
  ultimately show ?thesis
    by (simp add: splitCodeIntoChunks_def)
qed

lemma three_chunks:
  "splitCodeIntoChunks three_chunk_code 3000 =
     [replicate 3000 (CHR ''a'') @ [nl], replicate 3000 (CHR ''b'') @ [nl], ''c'' @ [nl]]"
proof -
  have "split_nl (replicate 3000 (CHR ''b'') @ nl # ''c'') = [replicate 3000 (CHR ''b''), ''c'']"
    using split_nl_line [of "replicate 3000 (CHR ''b'')" "''c''"] split_nl_single [of "''c''"]
    by (simp add: nl_def)
  then have "split_nl three_chunk_code =
      [replicate 3000 (CHR ''a''), replicate 3000 (CHR ''b''), ''c'']"
    using split_nl_line [of "replicate 3000 (CHR ''a'')" "replicate 3000 (CHR ''b'') @ nl # ''c''"]
    by (simp add: three_chunk_code_def nl_def)
  moreover have "length three_chunk_code = 6003"
    by (simp add: three_chunk_code_def)
  ultimately show ?thesis
    by (simp add: splitCodeIntoChunks_def)
qed

lemma example_task:
  "chunk_task (example_env answers moment) chunks areas i =
     (case reviewCodeChunk (\<lambda>t. None) (answers i) areas (i + 1) (length chunks) of
        Inl e \<Rightarrow> Inl (e\<lparr>e_retryAttempts := Some 3, e_retrySuccess := Some False\<rparr>)
      | Inr r \<Rightarrow> Inr r)"
  by (simp add: chunk_task_def example_env_def retry_unfold split: sum.splits)

lemma second_times_out_task:
  "chunk_task (example_env second_times_out moment) chunks areas i =
     (if i = 1 then Inl (timeout_failure (i + 1))
      else Inr (parseReviewResponse ''Fine'' areas (i + 1) (length chunks)))"
  by (simp add: example_task second_times_out_def reviewCodeChunk_def timeout_failure_def
      DeepseekTimeoutError_def)

lemma all_time_out_task:
  "chunk_task (example_env all_time_out moment) chunks areas i = Inl (timeout_failure (i + 1))"
  by (simp add: example_task all_time_out_def reviewCodeChunk_def timeout_failure_def
      DeepseekTimeoutError_def)

lemma show_500: "show_nat 500 = ''500''"
  by code_simp

lemma first_slow_second_busy_task:
  "chunk_task (example_env first_slow_second_busy moment) chunks areas i =
     (if i = 0 then Inl (timeout_failure (i + 1)) else Inl busy_failure)"
  by (simp add: example_task first_slow_second_busy_def reviewCodeChunk_def
      error_response_raw show_500 timeout_failure_def busy_failure_def
      DeepseekTimeoutError_def DeepseekApiError_def)

lemma example_key: "apiKey example_config \<noteq> None"
  by (simp add: apiKey_def example_config_def)

lemma show_small:
  "show_nat 0 = ''0''" "show_nat (Suc 0) = ''1''" "show_nat 2 = ''2''" "show_nat 3 = ''3''"
  "show_nat (Suc (Suc 0)) = ''2''"
  by (simp_all add: show_nat.simps digit_char_def numeral_2_eq_2 [symmetric])

lemma upt_small: "[0..<2] = [0, 1]" "[0..<3] = [0, 1, 2]"
  by (simp_all add: upt_rec)

lemma fine_parse:
  "parseReviewResponse ''Fine'' areas num tot =
     \<lparr>model = ''deepseek-chat'', focusAreas = areas, summary = ''Fine'',
      issues = \<lparr>critical = [], high = [], medium = [], low = []\<rparr>,
      recommendations = [], strengths = [], rawResponse = ''Fine'',
      chunkNumber = Some num, totalChunks = tot, retryAttempts = None, retrySuccess = None\<rparr>"
proof -
  have "extractSection ''Fine'' ''Summary'' (Some ''Issues'') = []"
    "extractSection ''Fine'' ''Issues'' (Some ''Recommendations'') = []"
    "extractSection ''Fine'' ''Recommendations'' (Some ''Strengths'') = []"
    "extractSection ''Fine'' ''Strengths'' None = []"
    by code_simp+
  moreover have "extractIssuesBySeverity [] sev = []" for sev
    by (simp add: extractIssuesBySeverity_def)
  ultimately show ?thesis
    by (simp add: parseReviewResponse_def)
qed

section \<open>The orchestrator's outcome and the final summary\<close>

lemma order_by_index:
  "settle_order (example_env answers in_order) 2 = [0, 1]"
  "settle_order (example_env answers in_order) (Suc (Suc 0)) = [0, 1]"
  by (simp_all add: settle_order_def example_env_def in_order_def upt_small)

lemma order_reversed:
  "settle_order (example_env answers second_first) 2 = [1, 0]"
  "settle_order (example_env answers second_first) (Suc (Suc 0)) = [1, 0]"
  by (simp_all add: settle_order_def example_env_def second_first_def upt_small)

lemma order_second_last:
  "settle_order (example_env answers second_last) 3 = [0, 2, 1]"
  "settle_order (example_env answers second_last) (Suc (Suc (Suc 0))) = [0, 2, 1]"
  by (simp_all add: settle_order_def example_env_def second_last_def upt_small)

lemma timeout_message:
  "e_message (timeout_failure n) = ''DeepSeek API request timed out for chunk '' @ show_nat n"
  by (simp add: timeout_failure_def)

text \<open>
  The run on the two-chunk source in which the second chunk always times out: one chunk
  succeeds, one fails.
\<close>

lemma partial_run:
  "reviewWithDeepseek (example_env second_times_out in_order) two_chunk_code [] example_config =
     Inr (enhanceOutputFormat
            ((as_report (parseReviewResponse ''Fine'' [] 1 2))
               \<lparr>errors := Some [\<lparr>f_chunkNumber = 2,
                                  f_error = ''DeepSeek API request timed out for chunk 2'',
                                  f_code = ''b\<newline>...''\<rparr>],
                partialSuccess := Some True,
                summary := partial_note 1 2 @ ''Fine''\<rparr>))"
proof -
  let ?env = "example_env second_times_out in_order"
  let ?chunks = "[replicate 3000 (CHR ''a'') @ [nl], ''b'' @ [nl]]"
  have run: "run_chunks ?env ?chunks [] =
      \<lparr>o_chunkResults = [parseReviewResponse ''Fine'' [] 1 2],
       o_errors = [\<lparr>f_chunkNumber = 2,
                    f_error = ''DeepSeek API request timed out for chunk 2'',
                    f_code = ''b\<newline>...''\<rparr>],
       o_chunkStatus = [Completed, Failed]\<rparr>"
    by (simp add: run_chunks_eq order_by_index second_times_out_task failure_entry_def
        substring_take timeout_message show_small upt_small nl_def fine_parse)
  have "combined_report (run_chunks ?env ?chunks []) [] 2 =
      Inr ((as_report (parseReviewResponse ''Fine'' [] 1 2))
             \<lparr>errors := Some [\<lparr>f_chunkNumber = 2,
                                f_error = ''DeepSeek API request timed out for chunk 2'',
                                f_code = ''b\<newline>...''\<rparr>],
              partialSuccess := Some True,
              summary := partial_note 1 2 @ ''Fine''\<rparr>)"
    unfolding run by (simp add: combined_report_def combineChunkResults_def as_report_def fine_parse)
  then show ?thesis
    using example_key
    by (auto simp: reviewWithDeepseek_def two_chunks numeral_2_eq_2 [symmetric])
qed

text \<open>
  C1, as stated, fails in two places. With two chunks of which the first succeeds and the
  second fails, the report has no \<open>processedChunks\<close> field, although one chunk succeeded.
  With two failing chunks of which the first times out at every attempt and the second is
  refused at once at every attempt, so that the second settles first, the aggregate error
  names the second chunk's error message, not the first chunk's.
\<close>

theorem orchestrator_counterexample:
  "length (splitCodeIntoChunks two_chunk_code 3000) = 2 \<and>
   \<not> isl (chunk_task (example_env second_times_out in_order)
            (splitCodeIntoChunks two_chunk_code 3000) [] 0) \<and>
   isl (chunk_task (example_env second_times_out in_order)
            (splitCodeIntoChunks two_chunk_code 3000) [] 1) \<and>
   \<not> isl (reviewWithDeepseek (example_env second_times_out in_order) two_chunk_code []
            example_config) \<and>
   partialSuccess (projr (reviewWithDeepseek (example_env second_times_out in_order) two_chunk_code []
            example_config)) = Some True \<and>
   processedChunks (projr (reviewWithDeepseek (example_env second_times_out in_order) two_chunk_code []
            example_config)) = None \<and>
   e_message (projl (chunk_task (example_env first_slow_second_busy second_first)
            (splitCodeIntoChunks two_chunk_code 3000) [] 0)) =
     ''DeepSeek API request timed out for chunk 1'' \<and>
   reviewWithDeepseek (example_env first_slow_second_busy second_first) two_chunk_code [] example_config =
     Inl (Error ''All 2 chunks failed to process. First error: DeepSeek API error: 500 Internal Server Error - busy'')"
proof -
  have a: "length (splitCodeIntoChunks two_chunk_code 3000) = 2"
    by (simp add: two_chunks)
  have b: "\<not> isl (chunk_task (example_env second_times_out in_order)
            (splitCodeIntoChunks two_chunk_code 3000) [] 0)"
    "isl (chunk_task (example_env second_times_out in_order)
            (splitCodeIntoChunks two_chunk_code 3000) [] 1)"
    by (simp_all add: second_times_out_task)
  have c: "\<not> isl (reviewWithDeepseek (example_env second_times_out in_order) two_chunk_code []
            example_config)"
    "partialSuccess (projr (reviewWithDeepseek (example_env second_times_out in_order)
            two_chunk_code [] example_config)) = Some True"
    "processedChunks (projr (reviewWithDeepseek (example_env second_times_out in_order)
            two_chunk_code [] example_config)) = None"
    by (simp_all add: partial_run enhance_fields as_report_def)
  have d: "e_message (projl (chunk_task (example_env first_slow_second_busy second_first)
            (splitCodeIntoChunks two_chunk_code 3000) [] 0)) =
     ''DeepSeek API request timed out for chunk 1''"
    by (simp add: first_slow_second_busy_task timeout_message show_small)
  have e: "reviewWithDeepseek (example_env first_slow_second_busy second_first) two_chunk_code []
      example_config =
     Inl (Error ''All 2 chunks failed to process. First error: DeepSeek API error: 500 Internal Server Error - busy'')"
  proof -
    have "\<forall>i<length (splitCodeIntoChunks two_chunk_code 3000).
        isl (chunk_task (example_env first_slow_second_busy second_first)
               (splitCodeIntoChunks two_chunk_code 3000) [] i)"
      by (simp add: first_slow_second_busy_task)
    from review_outcome(5) [OF example_key refl refl refl refl this] show ?thesis
      by (simp add: two_chunks order_reversed first_slow_second_busy_task busy_failure_def
          show_small)
  qed
  from a b c d e show ?thesis
    by blast
qed

lemma settle_order_sorted: "sorted (map (settled_at env) (settle_order env n))"
  by (simp add: settle_order_def)

text \<open>The task that settles first is the head of the order: no task settles before it.\<close>

lemma settle_order_hd:
  assumes "i < n"
  shows "settled_at env (hd (settle_order env n)) \<le> settled_at env i"
proof -
  from assms have mem: "i \<in> set (settle_order env n)"
    by (simp add: settle_order_set)
  then obtain x rest where o: "settle_order env n = x # rest"
    by (cases "settle_order env n") auto
  from settle_order_sorted [of env n] o
  have "\<forall>y \<in> set rest. settled_at env x \<le> settled_at env y"
    by simp
  with mem o show ?thesis
    by auto
qed

text \<open>Tasks that settle at the same moment settle in the order of the chunks.\<close>

lemma settle_order_first:
  assumes n: "0 < n" and first: "\<forall>i<n. settled_at env 0 \<le> settled_at env i"
  shows "hd (settle_order env n) = 0"
proof -
  from n have upt: "[0..<n] = 0 # [Suc 0..<n]"
    by (simp add: upt_conv_Cons)
  show ?thesis
  proof (cases "sort_key (settled_at env) [Suc 0..<n]")
    case Nil
    then show ?thesis
      by (simp add: settle_order_def upt)
  next
    case (Cons y ys)
    then have "y \<in> set (sort_key (settled_at env) [Suc 0..<n])"
      by simp
    then have "y < n"
      by simp
    with first have "settled_at env 0 \<le> settled_at env y"
      by simp
    with Cons show ?thesis
      by (simp add: settle_order_def upt)
  qed
qed

text \<open>
  C1, amended: the orchestrator waits for every chunk task to settle (afterwards every
  chunk is counted as a result or as an error and its status is completed or failed). If
  every chunk fails, it throws an error whose message names the failure count and the
  error message of the chunk whose task settled first, the one before which no other task
  settled; this is the first chunk's error message when no task settles before the first
  chunk's. If at least one chunk succeeds and at least one fails, the report has
  \<open>partialSuccess = true\<close> and an \<open>errors\<close> list with one entry per failed chunk, in the
  order in which they settled (the 1-based chunk number, the error message, and the first
  100 characters of the chunk followed by \<open>...\<close>); its \<open>processedChunks\<close> is the number of
  successful chunks when two or more chunks succeed and is absent when exactly one chunk
  succeeds.
\<close>

theorem orchestrator_outcome:
  assumes "apiKey cfg \<noteq> None"
    and "chunks = splitCodeIntoChunks code 3000"
    and "order = settle_order env (length chunks)"
    and "task = chunk_task env chunks areas"
    and "st = run_chunks env chunks areas"
  shows "1 \<le> length chunks \<and> set order = {0..<length chunks} \<and>
     sorted (map (settled_at env) order) \<and>
     length (o_chunkResults st) + length (o_errors st) = length chunks \<and>
     o_chunkStatus st =
       map (\<lambda>i. if isl (task i) then Failed else Completed) [0..<length chunks] \<and>
     ((\<forall>i<length chunks. isl (task i)) \<longrightarrow>
        reviewWithDeepseek env code areas cfg =
          Inl (Error (''All '' @ show_nat (length chunks) @
                      '' chunks failed to process. First error: '' @
                      e_message (projl (task (hd order))))) \<and>
        hd order < length chunks \<and>
        (\<forall>i<length chunks. settled_at env (hd order) \<le> settled_at env i)) \<and>
     ((\<forall>i<length chunks. isl (task i)) \<and>
      (\<forall>i<length chunks. settled_at env 0 \<le> settled_at env i) \<longrightarrow>
        reviewWithDeepseek env code areas cfg =
          Inl (Error (''All '' @ show_nat (length chunks) @
                      '' chunks failed to process. First error: '' @
                      e_message (projl (task 0))))) \<and>
     ((\<exists>i<length chunks. isl (task i)) \<and> (\<exists>i<length chunks. \<not> isl (task i)) \<longrightarrow>
        (\<exists>rep. reviewWithDeepseek env code areas cfg = Inr rep \<and>
           partialSuccess rep = Some True \<and>
           errors rep =
             Some (map (\<lambda>i. \<lparr>f_chunkNumber = i + 1, f_error = e_message (projl (task i)),
                              f_code = take 100 (chunks ! i) @ ''...''\<rparr>)
                     (filter (\<lambda>i. isl (task i)) order)) \<and>
           length (filter (\<lambda>i. isl (task i)) order) =
             length (filter (\<lambda>i. isl (task i)) [0..<length chunks]) \<and>
           processedChunks rep =
             (if length (filter (\<lambda>i. \<not> isl (task i)) [0..<length chunks]) = 1 then None
              else Some (length (filter (\<lambda>i. \<not> isl (task i)) [0..<length chunks])))))"
proof -
  have n: "1 \<le> length chunks"
    by (rule review_outcome(1) [OF assms])
  have ord: "set order = {0..<length chunks}"
    by (rule review_outcome(2) [OF assms])
  have srt: "sorted (map (settled_at env) order)"
    unfolding assms(3) by (rule settle_order_sorted)
  have cnt: "length (o_chunkResults st) + length (o_errors st) = length chunks"
    by (rule review_outcome(3) [OF assms])
  have sta: "o_chunkStatus st =
       map (\<lambda>i. if isl (task i) then Failed else Completed) [0..<length chunks]"
    by (rule review_outcome(4) [OF assms])
  have hd_in: "hd order < length chunks"
  proof -
    from n have "0 \<in> {0..<length chunks}"
      by (simp add: Suc_le_eq)
    with ord have "0 \<in> set order"
      by simp
    then have "order \<noteq> []"
      by auto
    then have "hd order \<in> set order"
      by simp
    with ord show ?thesis
      by simp
  qed
  have hd_first: "\<forall>i<length chunks. settled_at env (hd order) \<le> settled_at env i"
    unfolding assms(3) using settle_order_hd by blast
  have all: "reviewWithDeepseek env code areas cfg =
          Inl (Error (''All '' @ show_nat (length chunks) @
                      '' chunks failed to process. First error: '' @
                      e_message (projl (task (hd order)))))"
    if "\<forall>i<length chunks. isl (task i)"
    using that by (rule review_outcome(5) [OF assms])
  have first: "reviewWithDeepseek env code areas cfg =
          Inl (Error (''All '' @ show_nat (length chunks) @
                      '' chunks failed to process. First error: '' @
                      e_message (projl (task 0))))"
    if "(\<forall>i<length chunks. isl (task i)) \<and>
        (\<forall>i<length chunks. settled_at env 0 \<le> settled_at env i)"
  proof -
    from n have "0 < length chunks"
      by (simp add: Suc_le_eq)
    with that have "hd order = 0"
      unfolding assms(3) by (intro settle_order_first) simp_all
    with all that show ?thesis
      by simp
  qed
  have part: "\<exists>rep. reviewWithDeepseek env code areas cfg = Inr rep \<and>
           partialSuccess rep = Some True \<and>
           errors rep =
             Some (map (\<lambda>i. \<lparr>f_chunkNumber = i + 1, f_error = e_message (projl (task i)),
                              f_code = take 100 (chunks ! i) @ ''...''\<rparr>)
                     (filter (\<lambda>i. isl (task i)) order)) \<and>
           length (filter (\<lambda>i. isl (task i)) order) =
             length (filter (\<lambda>i. isl (task i)) [0..<length chunks]) \<and>
           processedChunks rep =
             (if length (filter (\<lambda>i. \<not> isl (task i)) [0..<length chunks]) = 1 then None
              else Some (length (filter (\<lambda>i. \<not> isl (task i)) [0..<length chunks])))"
    if "(\<exists>i<length chunks. isl (task i)) \<and> (\<exists>i<length chunks. \<not> isl (task i))"
    using that review_outcome(6) [OF assms] by blast
  from n ord srt cnt sta hd_in hd_first all first part show ?thesis
    by blast
qed

theorem orchestrator_outcome_witness:
  "(\<exists>rep. reviewWithDeepseek (example_env second_times_out second_last) three_chunk_code []
            example_config = Inr rep \<and>
      partialSuccess rep = Some True \<and>
      errors rep =
        Some [\<lparr>f_chunkNumber = 2, f_error = ''DeepSeek API request timed out for chunk 2'',
               f_code = replicate 100 (CHR ''b'') @ ''...''\<rparr>] \<and>
      processedChunks rep = Some 2) \<and>
   o_chunkStatus (run_chunks (example_env second_times_out second_last)
                    (splitCodeIntoChunks three_chunk_code 3000) []) =
     [Completed, Failed, Completed] \<and>
   reviewWithDeepseek (example_env all_time_out in_order) two_chunk_code [] example_config =
     Inl (Error ''All 2 chunks failed to process. First error: DeepSeek API request timed out for chunk 1'') \<and>
   settle_order (example_env all_time_out second_last) 3 = [0, 2, 1] \<and>
   reviewWithDeepseek (example_env all_time_out second_last) three_chunk_code [] example_config =
     Inl (Error ''All 3 chunks failed to process. First error: DeepSeek API request timed out for chunk 1'')"
proof -
  note three =
    orchestrator_outcome [OF example_key refl refl refl refl,
      where env = "example_env second_times_out second_last" and code = three_chunk_code
        and areas = "[]"]
  note two =
    orchestrator_outcome [OF example_key refl refl refl refl,
      where env = "example_env all_time_out in_order" and code = two_chunk_code
        and areas = "[]"]
  note late =
    orchestrator_outcome [OF example_key refl refl refl refl,
      where env = "example_env all_time_out second_last" and code = three_chunk_code
        and areas = "[]"]
  let ?env = "example_env second_times_out second_last"
  let ?chunks = "splitCodeIntoChunks three_chunk_code 3000"
  have hyp: "(\<exists>i<length ?chunks. isl (chunk_task ?env ?chunks [] i)) \<and>
      (\<exists>i<length ?chunks. \<not> isl (chunk_task ?env ?chunks [] i))"
    by (intro conjI exI [of _ 1] exI [of _ 0])
      (simp_all add: three_chunks second_times_out_task)
  from three hyp
  obtain rep where r: "reviewWithDeepseek ?env three_chunk_code [] example_config = Inr rep"
    "partialSuccess rep = Some True"
    "errors rep =
       Some (map (\<lambda>i. \<lparr>f_chunkNumber = i + 1,
                        f_error = e_message (projl (chunk_task ?env ?chunks [] i)),
                        f_code = take 100 (?chunks ! i) @ ''...''\<rparr>)
               (filter (\<lambda>i. isl (chunk_task ?env ?chunks [] i))
                  (settle_order ?env (length ?chunks))))"
    "processedChunks rep =
       (if length (filter (\<lambda>i. \<not> isl (chunk_task ?env ?chunks [] i)) [0..<length ?chunks]) = 1
        then None
        else Some (length (filter (\<lambda>i. \<not> isl (chunk_task ?env ?chunks [] i))
                             [0..<length ?chunks])))"
    by blast
  have "errors rep =
        Some [\<lparr>f_chunkNumber = 2, f_error = ''DeepSeek API request timed out for chunk 2'',
               f_code = replicate 100 (CHR ''b'') @ ''...''\<rparr>]"
    unfolding r(3)
    by (simp add: three_chunks second_times_out_task order_second_last timeout_message
        show_small)
  moreover have "processedChunks rep = Some 2"
    unfolding r(4) by (simp add: three_chunks second_times_out_task)
  ultimately have a: "\<exists>rep. reviewWithDeepseek ?env three_chunk_code [] example_config = Inr rep \<and>
      partialSuccess rep = Some True \<and>
      errors rep =
        Some [\<lparr>f_chunkNumber = 2, f_error = ''DeepSeek API request timed out for chunk 2'',
               f_code = replicate 100 (CHR ''b'') @ ''...''\<rparr>] \<and>
      processedChunks rep = Some 2"
    using r(1) r(2) by blast
  from three have "o_chunkStatus (run_chunks ?env ?chunks []) =
      map (\<lambda>i. if isl (chunk_task ?env ?chunks [] i) then Failed else Completed)
        [0..<length ?chunks]"
    by blast
  then have b: "o_chunkStatus (run_chunks ?env ?chunks []) = [Completed, Failed, Completed]"
    by (simp add: three_chunks second_times_out_task)
  let ?env2 = "example_env all_time_out in_order"
  let ?chunks2 = "splitCodeIntoChunks two_chunk_code 3000"
  have all: "\<forall>i<length ?chunks2. isl (chunk_task ?env2 ?chunks2 [] i)"
    by (simp add: all_time_out_task)
  with two have "reviewWithDeepseek ?env2 two_chunk_code [] example_config =
      Inl (Error (''All '' @ show_nat (length ?chunks2) @
                  '' chunks failed to process. First error: '' @
                  e_message (projl (chunk_task ?env2 ?chunks2 []
                    (hd (settle_order ?env2 (length ?chunks2)))))))"
    by blast
  then have c: "reviewWithDeepseek ?env2 two_chunk_code [] example_config =
     Inl (Error ''All 2 chunks failed to process. First error: DeepSeek API request timed out for chunk 1'')"
    by (simp add: two_chunks all_time_out_task order_by_index timeout_message show_small)
  let ?env3 = "example_env all_time_out second_last"
  have d: "settle_order ?env3 3 = [0, 2, 1]"
    by (rule order_second_last(1))
  have "\<forall>i<length ?chunks. isl (chunk_task ?env3 ?chunks [] i)"
    by (simp add: all_time_out_task)
  moreover have "\<forall>i<length ?chunks. settled_at ?env3 0 \<le> settled_at ?env3 i"
    by (simp add: example_env_def second_last_def)
  ultimately have all3: "(\<forall>i<length ?chunks. isl (chunk_task ?env3 ?chunks [] i)) \<and>
      (\<forall>i<length ?chunks. settled_at ?env3 0 \<le> settled_at ?env3 i)"
    by blast
  with late have "reviewWithDeepseek ?env3 three_chunk_code [] example_config =
      Inl (Error (''All '' @ show_nat (length ?chunks) @
                  '' chunks failed to process. First error: '' @
                  e_message (projl (chunk_task ?env3 ?chunks [] 0))))"
    by blast
  then have e: "reviewWithDeepseek ?env3 three_chunk_code [] example_config =
     Inl (Error ''All 3 chunks failed to process. First error: DeepSeek API request timed out for chunk 1'')"
    by (simp add: three_chunks all_time_out_task timeout_message show_small
        numeral_3_eq_3 [symmetric])
  from a b c d e show ?thesis
    by blast
qed

lemma combined_report_partial:
  assumes "combined_report st areas n = Inr pre"
  shows "chunkResults pre = None"
    and "partialSuccess pre = Some True \<Longrightarrow>
           \<exists>merged. errors pre = Some (o_errors st) \<and>
             summary pre = partial_note (length (o_errors st)) n @ merged"
proof -
  from combined_report_cases [OF assms] obtain r0 where
    r0: "combineChunkResults (o_chunkResults st) areas = Inr r0" "chunkResults r0 = None"
      "errors r0 = None"
      "if o_errors st = [] then pre = r0
       else pre = r0\<lparr>errors := Some (o_errors st), partialSuccess := Some True,
                     summary := partial_note (length (o_errors st)) n @ summary r0\<rparr>"
    by blast
  show "chunkResults pre = None"
    using r0(2) r0(4) by (cases "o_errors st = []") simp_all
  have p0: "partialSuccess r0 = None"
  proof (cases "o_chunkResults st = []")
    case True
    with r0(1) show ?thesis
      by (simp add: combineChunkResults_def)
  next
    case False
    from combine_nonempty [OF False, of areas] r0(1) show ?thesis
      by auto
  qed
  show "\<exists>merged. errors pre = Some (o_errors st) \<and>
             summary pre = partial_note (length (o_errors st)) n @ merged"
    if "partialSuccess pre = Some True"
    using that r0(4) p0 by (cases "o_errors st = []") simp_all
qed

section \<open>The block that opens the summary\<close>

lemma review_fields:
  "reviewCodeChunk parse outcome areas num tot = Inr r \<Longrightarrow>
   focusAreas r = areas \<and> totalChunks r = tot"
  by (auto simp: reviewCodeChunk_def parseReviewResponse_def Let_def
      split: fetch_outcome.splits sum.splits)

lemma retry_result:
  "fst (processChunkWithRetry call rand) = Inr r \<Longrightarrow>
   \<exists>k r0. call k = Inr r0 \<and> focusAreas r = focusAreas r0 \<and> totalChunks r = totalChunks r0"
  by (fastforce simp: retry_unfold split: sum.splits)

text \<open>Every chunk result carries the requested focus areas and the number of chunks.\<close>

lemma chunk_task_fields:
  assumes "chunk_task env chunks areas i = Inr r"
  shows "focusAreas r = areas \<and> totalChunks r = length chunks"
proof -
  from retry_result [OF assms [unfolded chunk_task_def]]
  obtain k r0 where
    "reviewCodeChunk (json_parse env) (fetched env i k) areas (i + 1) (length chunks) = Inr r0"
    "focusAreas r = focusAreas r0" "totalChunks r = totalChunks r0"
    by blast
  with review_fields show ?thesis
    by metis
qed

lemma run_results_fields:
  assumes "r \<in> set (o_chunkResults (run_chunks env chunks areas))"
  shows "focusAreas r = areas \<and> totalChunks r = length chunks"
proof -
  from assms obtain i where "\<not> isl (chunk_task env chunks areas i)"
    and "r = projr (chunk_task env chunks areas i)"
    by (auto simp: run_chunks_eq)
  then have "chunk_task env chunks areas i = Inr r"
    by (cases "chunk_task env chunks areas i") auto
  then show ?thesis
    by (rule chunk_task_fields)
qed

lemma run_results_length:
  "length (o_chunkResults (run_chunks env chunks areas)) =
     length (filter (\<lambda>i. \<not> isl (chunk_task env chunks areas i)) [0..<length chunks])"
  by (simp add: run_chunks_eq settle_order_filter_length)

text \<open>
  What the block reads from a merged report, when every result carries the same focus
  areas and number of chunks.
\<close>

lemma combine_stats:
  assumes c: "combineChunkResults results areas = Inr r0"
    and f: "\<forall>r \<in> set results. focusAreas r = areas \<and> totalChunks r = tot"
  shows "issue_counts r0 =
           \<lparr>critical = length (critical (issues r0)), high = length (high (issues r0)),
            medium = length (medium (issues r0)), low = length (low (issues r0))\<rparr>"
    and "focusAreas r0 = areas" and "totalChunks r0 = tot"
    and "or_one (processedChunks r0) = length results"
proof -
  consider "results = []" | a where "results = [a]" | a b rest where "results = a # b # rest"
    by (cases results; cases "tl results") auto
  then have "issue_counts r0 =
           \<lparr>critical = length (critical (issues r0)), high = length (high (issues r0)),
            medium = length (medium (issues r0)), low = length (low (issues r0))\<rparr> \<and>
      focusAreas r0 = areas \<and> totalChunks r0 = tot \<and>
      or_one (processedChunks r0) = length results"
  proof cases
    case 1
    with c show ?thesis
      by (simp add: combineChunkResults_def)
  next
    case 2
    with c f show ?thesis
      by (auto simp: combineChunkResults_def as_report_def issue_counts_def or_one_def)
  next
    case 3
    with c f show ?thesis
      by (auto simp: combineChunkResults_def Let_def issue_counts_def or_one_def)
  qed
  then show "issue_counts r0 =
           \<lparr>critical = length (critical (issues r0)), high = length (high (issues r0)),
            medium = length (medium (issues r0)), low = length (low (issues r0))\<rparr>"
    and "focusAreas r0 = areas" and "totalChunks r0 = tot"
    and "or_one (processedChunks r0) = length results"
    by simp_all
qed

lemma combined_report_stats:
  assumes c: "combined_report st areas n = Inr pre"
    and f: "\<forall>r \<in> set (o_chunkResults st). focusAreas r = areas \<and> totalChunks r = tot"
  shows "issue_counts pre =
           \<lparr>critical = length (critical (issues pre)), high = length (high (issues pre)),
            medium = length (medium (issues pre)), low = length (low (issues pre))\<rparr>"
    and "focusAreas pre = areas" and "totalChunks pre = tot"
    and "or_one (processedChunks pre) = length (o_chunkResults st)"
proof -
  from combined_report_cases [OF c] obtain r0 where
    r0: "combineChunkResults (o_chunkResults st) areas = Inr r0"
      "if o_errors st = [] then pre = r0
       else pre = r0\<lparr>errors := Some (o_errors st), partialSuccess := Some True,
                     summary := partial_note (length (o_errors st)) n @ summary r0\<rparr>"
    by blast
  note s = combine_stats [OF r0(1) f]
  show "issue_counts pre =
           \<lparr>critical = length (critical (issues pre)), high = length (high (issues pre)),
            medium = length (medium (issues pre)), low = length (low (issues pre))\<rparr>"
    using s(1) r0(2)
    by (cases "o_errors st = []") (simp_all add: issue_counts_def split: option.splits)
  show "focusAreas pre = areas"
    using s(2) r0(2) by (cases "o_errors st = []") simp_all
  show "totalChunks pre = tot"
    using s(3) r0(2) by (cases "o_errors st = []") simp_all
  show "or_one (processedChunks pre) = length (o_chunkResults st)"
    using s(4) r0(2) by (cases "o_errors st = []") simp_all
qed

lemma enhance_kept:
  "issues (enhanceOutputFormat r) = issues r"
  "focusAreas (enhanceOutputFormat r) = focusAreas r"
  "totalChunks (enhanceOutputFormat r) = totalChunks r"
  by (simp_all add: enhanceOutputFormat_def Let_def)

lemma quickStats_explicit:
  assumes "chunkResults r = None"
    and "issue_counts r = \<lparr>critical = c, high = h, medium = m, low = l\<rparr>"
  shows "quickStats r =
      ''\<newline>## Quick Stats\<newline>- **Total Issues**: '' @ show_nat (c + h + m + l) @
      ''\<newline>- **Critical**: '' @ show_nat c @
      ''\<newline>- **High**: '' @ show_nat h @
      ''\<newline>- **Medium**: '' @ show_nat m @
      ''\<newline>- **Low**: '' @ show_nat l @
      ''\<newline>- **Focus Areas**: '' @ join '', '' (focusAreas r) @
      ''\<newline>- **Chunks Processed**: '' @ show_nat (or_one (processedChunks r)) @
      ''/'' @ show_nat (or_one (Some (totalChunks r))) @ ''\<newline>\<newline>''"
  using assms by (simp add: quickStats_def retrySuccessCount_def Let_def)

lemma keyIssues_explicit:
  assumes "issue_counts r =
      \<lparr>critical = length (critical (issues r)), high = length (high (issues r)),
       medium = m, low = l\<rparr>"
  shows "keyIssues r =
      (if critical (issues r) \<noteq> [] \<or> high (issues r) \<noteq> []
       then ''\<newline>## Key Issues to Address\<newline>\<newline>'' @
            (if critical (issues r) \<noteq> []
             then ''### Critical Issues\<newline>'' @ numbered (critical (issues r)) @ ''\<newline>''
             else []) @
            ''\<newline>\<newline>'' @
            (if high (issues r) \<noteq> []
             then ''### High Priority Issues\<newline>'' @ numbered (high (issues r)) @ ''\<newline>''
             else []) @
            ''\<newline>''
       else [])"
  using assms by (simp add: keyIssues_def Let_def)

text \<open>
  The run on the two-chunk source in which the first chunk is answered with the example
  text and the second chunk always times out, with two focus areas requested.
\<close>

lemma example_parsed:
  "parseReviewResponse example_review areas num tot =
     \<lparr>model = ''deepseek-chat'', focusAreas = areas, summary = ''All good'',
      issues = \<lparr>critical = [''1. SQL injection''], high = [''1. No input validation''],
                 medium = [], low = []\<rparr>,
      recommendations = ''Add tests'', strengths = ''Clear naming'',
      rawResponse = example_review, chunkNumber = Some num, totalChunks = tot,
      retryAttempts = None, retrySuccess = None\<rparr>"
  by (simp add: parseReviewResponse_def example_summary example_issues_section
      example_recommendations example_strengths example_critical example_high example_medium
      example_low)

lemma reviewed_but_second_task:
  "chunk_task (example_env reviewed_but_second moment) chunks areas i =
     (if i = 1 then Inl (timeout_failure (i + 1))
      else Inr (parseReviewResponse example_review areas (i + 1) (length chunks)))"
  by (simp add: example_task reviewed_but_second_def reviewCodeChunk_def timeout_failure_def
      DeepseekTimeoutError_def)

lemma reviewed_run:
  "combined_report
     (run_chunks (example_env reviewed_but_second in_order)
        (splitCodeIntoChunks two_chunk_code 3000) areas)
     areas (length (splitCodeIntoChunks two_chunk_code 3000)) =
   Inr ((as_report (parseReviewResponse example_review areas 1 2))
          \<lparr>errors := Some [\<lparr>f_chunkNumber = 2,
                             f_error = ''DeepSeek API request timed out for chunk 2'',
                             f_code = ''b\<newline>...''\<rparr>],
           partialSuccess := Some True,
           summary := partial_note 1 2 @ ''All good''\<rparr>)"
  "reviewWithDeepseek (example_env reviewed_but_second in_order) two_chunk_code areas
     example_config =
   Inr (enhanceOutputFormat
          ((as_report (parseReviewResponse example_review areas 1 2))
             \<lparr>errors := Some [\<lparr>f_chunkNumber = 2,
                                f_error = ''DeepSeek API request timed out for chunk 2'',
                                f_code = ''b\<newline>...''\<rparr>],
              partialSuccess := Some True,
              summary := partial_note 1 2 @ ''All good''\<rparr>))"
proof -
  let ?env = "example_env reviewed_but_second in_order"
  let ?chunks = "[replicate 3000 (CHR ''a'') @ [nl], ''b'' @ [nl]]"
  have run: "run_chunks ?env ?chunks areas =
      \<lparr>o_chunkResults = [parseReviewResponse example_review areas 1 2],
       o_errors = [\<lparr>f_chunkNumber = 2,
                    f_error = ''DeepSeek API request timed out for chunk 2'',
                    f_code = ''b\<newline>...''\<rparr>],
       o_chunkStatus = [Completed, Failed]\<rparr>"
    by (simp add: run_chunks_eq order_by_index reviewed_but_second_task failure_entry_def
        substring_take timeout_message show_small upt_small nl_def example_parsed)
  have "combined_report (run_chunks ?env ?chunks areas) areas 2 =
      Inr ((as_report (parseReviewResponse example_review areas 1 2))
             \<lparr>errors := Some [\<lparr>f_chunkNumber = 2,
                                f_error = ''DeepSeek API request timed out for chunk 2'',
                                f_code = ''b\<newline>...''\<rparr>],
              partialSuccess := Some True,
              summary := partial_note 1 2 @ ''All good''\<rparr>)"
    unfolding run
    by (simp add: combined_report_def combineChunkResults_def as_report_def example_parsed)
  then show c: "combined_report
     (run_chunks ?env (splitCodeIntoChunks two_chunk_code 3000) areas)
     areas (length (splitCodeIntoChunks two_chunk_code 3000)) =
   Inr ((as_report (parseReviewResponse example_review areas 1 2))
          \<lparr>errors := Some [\<lparr>f_chunkNumber = 2,
                             f_error = ''DeepSeek API request timed out for chunk 2'',
                             f_code = ''b\<newline>...''\<rparr>],
           partialSuccess := Some True,
           summary := partial_note 1 2 @ ''All good''\<rparr>)"
    by (simp add: two_chunks numeral_2_eq_2 [symmetric])
  show "reviewWithDeepseek ?env two_chunk_code areas example_config =
   Inr (enhanceOutputFormat
          ((as_report (parseReviewResponse example_review areas 1 2))
             \<lparr>errors := Some [\<lparr>f_chunkNumber = 2,
                                f_error = ''DeepSeek API request timed out for chunk 2'',
                                f_code = ''b\<newline>...''\<rparr>],
              partialSuccess := Some True,
              summary := partial_note 1 2 @ ''All good''\<rparr>))"
    using example_key by (simp add: reviewWithDeepseek_def Let_def c)
qed

text \<open>
  C10: the summary of every report that a review returns opens with the Quick Stats
  block: a line break, the heading \<open>## Quick Stats\<close>, the total number of issues of the
  report and the number under each of the four severities, the requested focus areas
  joined by a comma and a space, and the number of chunks that succeeded over the number
  of chunks. The key issues (the critical and the high issues, numbered) and a separator
  follow, and then the summary as it stood after merging; on a partial failure the latter
  opens with the warning note, which therefore comes after the block.
\<close>

theorem summary_opens_with_quick_stats:
  "reviewWithDeepseek env code areas cfg = Inr rep \<longrightarrow>
     (\<exists>pre. combined_report (run_chunks env (splitCodeIntoChunks code 3000) areas) areas
               (length (splitCodeIntoChunks code 3000)) = Inr pre \<and>
        rep = enhanceOutputFormat pre \<and>
        summary rep = quickStats pre @ keyIssues pre @ ''\<newline>**\<newline>\<newline>'' @ summary pre \<and>
        summary rep =
          ''\<newline>## Quick Stats\<newline>- **Total Issues**: '' @
            show_nat (length (critical (issues rep)) + length (high (issues rep)) +
                      length (medium (issues rep)) + length (low (issues rep))) @
          ''\<newline>- **Critical**: '' @ show_nat (length (critical (issues rep))) @
          ''\<newline>- **High**: '' @ show_nat (length (high (issues rep))) @
          ''\<newline>- **Medium**: '' @ show_nat (length (medium (issues rep))) @
          ''\<newline>- **Low**: '' @ show_nat (length (low (issues rep))) @
          ''\<newline>- **Focus Areas**: '' @ join '', '' areas @
          ''\<newline>- **Chunks Processed**: '' @
            show_nat (length (filter (\<lambda>i. \<not> isl (chunk_task env (splitCodeIntoChunks code 3000) areas i))
                                [0..<length (splitCodeIntoChunks code 3000)])) @
          ''/'' @ show_nat (length (splitCodeIntoChunks code 3000)) @ ''\<newline>\<newline>'' @
          (if critical (issues rep) \<noteq> [] \<or> high (issues rep) \<noteq> []
           then ''\<newline>## Key Issues to Address\<newline>\<newline>'' @
                (if critical (issues rep) \<noteq> []
                 then ''### Critical Issues\<newline>'' @ numbered (critical (issues rep)) @ ''\<newline>''
                 else []) @
                ''\<newline>\<newline>'' @
                (if high (issues rep) \<noteq> []
                 then ''### High Priority Issues\<newline>'' @ numbered (high (issues rep)) @ ''\<newline>''
                 else []) @
                ''\<newline>''
           else []) @
          ''\<newline>**\<newline>\<newline>'' @ summary pre \<and>
        focusAreas rep = areas \<and>
        prefix ''\<newline>## Quick Stats\<newline>- **Total Issues**: '' (summary rep) \<and>
        (partialSuccess rep = Some True \<longrightarrow>
           (\<exists>failed merged. errors rep = Some failed \<and>
              summary rep =
                quickStats pre @ keyIssues pre @ ''\<newline>**\<newline>\<newline>'' @
                partial_note (length failed) (length (splitCodeIntoChunks code 3000)) @ merged \<and>
              summary pre =
                warning_sign @ '' Note: '' @ show_nat (length failed) @ '' of '' @
                show_nat (length (splitCodeIntoChunks code 3000)) @
                '' chunks failed to process. The review is incomplete.\<newline>\<newline>'' @ merged)))"
proof
  let ?chunks = "splitCodeIntoChunks code 3000"
  let ?st = "run_chunks env ?chunks areas"
  assume ok: "reviewWithDeepseek env code areas cfg = Inr rep"
  then obtain pre where pre: "combined_report ?st areas (length ?chunks) = Inr pre"
    and rep: "rep = enhanceOutputFormat pre"
    by (auto simp: reviewWithDeepseek_def Let_def split: if_splits sum.splits)
  have none: "chunkResults pre = None"
    by (rule combined_report_partial(1) [OF pre])
  have s: "summary rep = quickStats pre @ keyIssues pre @ ''\<newline>**\<newline>\<newline>'' @ summary pre"
    unfolding rep by (rule enhance_summary [OF none])
  have fields: "\<forall>r \<in> set (o_chunkResults ?st). focusAreas r = areas \<and> totalChunks r = length ?chunks"
    using run_results_fields by blast
  note stats = combined_report_stats [OF pre fields]
  have total: "or_one (Some (totalChunks pre)) = length ?chunks"
    using chunks_nonempty [of code 3000] by (simp add: stats(3) or_one_def)
  have processed: "or_one (processedChunks pre) =
      length (filter (\<lambda>i. \<not> isl (chunk_task env ?chunks areas i)) [0..<length ?chunks])"
    by (simp only: stats(4) run_results_length)
  have iss: "issues rep = issues pre" and foc: "focusAreas rep = areas"
    by (simp_all add: rep enhance_kept stats(2))
  have q: "quickStats pre =
      ''\<newline>## Quick Stats\<newline>- **Total Issues**: '' @
        show_nat (length (critical (issues rep)) + length (high (issues rep)) +
                  length (medium (issues rep)) + length (low (issues rep))) @
      ''\<newline>- **Critical**: '' @ show_nat (length (critical (issues rep))) @
      ''\<newline>- **High**: '' @ show_nat (length (high (issues rep))) @
      ''\<newline>- **Medium**: '' @ show_nat (length (medium (issues rep))) @
      ''\<newline>- **Low**: '' @ show_nat (length (low (issues rep))) @
      ''\<newline>- **Focus Areas**: '' @ join '', '' areas @
      ''\<newline>- **Chunks Processed**: '' @
        show_nat (length (filter (\<lambda>i. \<not> isl (chunk_task env ?chunks areas i))
                            [0..<length ?chunks])) @
      ''/'' @ show_nat (length ?chunks) @ ''\<newline>\<newline>''"
    unfolding iss
    using quickStats_explicit [OF none stats(1)]
    by (simp only: stats(2) total processed)
  have k: "keyIssues pre =
      (if critical (issues rep) \<noteq> [] \<or> high (issues rep) \<noteq> []
       then ''\<newline>## Key Issues to Address\<newline>\<newline>'' @
            (if critical (issues rep) \<noteq> []
             then ''### Critical Issues\<newline>'' @ numbered (critical (issues rep)) @ ''\<newline>''
             else []) @
            ''\<newline>\<newline>'' @
            (if high (issues rep) \<noteq> []
             then ''### High Priority Issues\<newline>'' @ numbered (high (issues rep)) @ ''\<newline>''
             else []) @
            ''\<newline>''
       else [])"
    unfolding iss by (rule keyIssues_explicit [OF stats(1)])
  have e: "summary rep =
          ''\<newline>## Quick Stats\<newline>- **Total Issues**: '' @
            show_nat (length (critical (issues rep)) + length (high (issues rep)) +
                      length (medium (issues rep)) + length (low (issues rep))) @
          ''\<newline>- **Critical**: '' @ show_nat (length (critical (issues rep))) @
          ''\<newline>- **High**: '' @ show_nat (length (high (issues rep))) @
          ''\<newline>- **Medium**: '' @ show_nat (length (medium (issues rep))) @
          ''\<newline>- **Low**: '' @ show_nat (length (low (issues rep))) @
          ''\<newline>- **Focus Areas**: '' @ join '', '' areas @
          ''\<newline>- **Chunks Processed**: '' @
            show_nat (length (filter (\<lambda>i. \<not> isl (chunk_task env ?chunks areas i))
                                [0..<length ?chunks])) @
          ''/'' @ show_nat (length ?chunks) @ ''\<newline>\<newline>'' @
          (if critical (issues rep) \<noteq> [] \<or> high (issues rep) \<noteq> []
           then ''\<newline>## Key Issues to Address\<newline>\<newline>'' @
                (if critical (issues rep) \<noteq> []
                 then ''### Critical Issues\<newline>'' @ numbered (critical (issues rep)) @ ''\<newline>''
                 else []) @
                ''\<newline>\<newline>'' @
                (if high (issues rep) \<noteq> []
                 then ''### High Priority Issues\<newline>'' @ numbered (high (issues rep)) @ ''\<newline>''
                 else []) @
                ''\<newline>''
           else []) @
          ''\<newline>**\<newline>\<newline>'' @ summary pre"
    unfolding s by (subst q, subst k) (simp only: append_assoc)
  have p: "prefix ''\<newline>## Quick Stats\<newline>- **Total Issues**: '' (summary rep)"
    unfolding s using quickStats_prefix [of pre] by (rule prefix_order.trans) simp
  have w: "\<exists>failed merged. errors rep = Some failed \<and>
              summary rep =
                quickStats pre @ keyIssues pre @ ''\<newline>**\<newline>\<newline>'' @
                partial_note (length failed) (length ?chunks) @ merged \<and>
              summary pre =
                warning_sign @ '' Note: '' @ show_nat (length failed) @ '' of '' @
                show_nat (length ?chunks) @
                '' chunks failed to process. The review is incomplete.\<newline>\<newline>'' @ merged"
    if "partialSuccess rep = Some True"
  proof -
    from that have "partialSuccess pre = Some True"
      by (simp add: rep enhance_fields)
    from combined_report_partial(2) [OF pre this] obtain merged where
      m: "errors pre = Some (o_errors ?st)"
      "summary pre = partial_note (length (o_errors ?st)) (length ?chunks) @ merged"
      by blast
    then have "errors rep = Some (o_errors ?st)"
      and "summary rep =
        quickStats pre @ keyIssues pre @ ''\<newline>**\<newline>\<newline>'' @
        partial_note (length (o_errors ?st)) (length ?chunks) @ merged"
      using s by (simp_all add: rep enhance_fields)
    moreover from m(2) have "summary pre =
        warning_sign @ '' Note: '' @ show_nat (length (o_errors ?st)) @ '' of '' @
        show_nat (length ?chunks) @
        '' chunks failed to process. The review is incomplete.\<newline>\<newline>'' @ merged"
      by (simp add: partial_note_def)
    ultimately show ?thesis
      by blast
  qed
  from pre rep s e foc p w
  show "\<exists>pre. combined_report ?st areas (length ?chunks) = Inr pre \<and>
        rep = enhanceOutputFormat pre \<and>
        summary rep = quickStats pre @ keyIssues pre @ ''\<newline>**\<newline>\<newline>'' @ summary pre \<and>
        summary rep =
          ''\<newline>## Quick Stats\<newline>- **Total Issues**: '' @
            show_nat (length (critical (issues rep)) + length (high (issues rep)) +
                      length (medium (issues rep)) + length (low (issues rep))) @
          ''\<newline>- **Critical**: '' @ show_nat (length (critical (issues rep))) @
          ''\<newline>- **High**: '' @ show_nat (length (high (issues rep))) @
          ''\<newline>- **Medium**: '' @ show_nat (length (medium (issues rep))) @
          ''\<newline>- **Low**: '' @ show_nat (length (low (issues rep))) @
          ''\<newline>- **Focus Areas**: '' @ join '', '' areas @
          ''\<newline>- **Chunks Processed**: '' @
            show_nat (length (filter (\<lambda>i. \<not> isl (chunk_task env ?chunks areas i))
                                [0..<length ?chunks])) @
          ''/'' @ show_nat (length ?chunks) @ ''\<newline>\<newline>'' @
          (if critical (issues rep) \<noteq> [] \<or> high (issues rep) \<noteq> []
           then ''\<newline>## Key Issues to Address\<newline>\<newline>'' @
                (if critical (issues rep) \<noteq> []
                 then ''### Critical Issues\<newline>'' @ numbered (critical (issues rep)) @ ''\<newline>''
                 else []) @
                ''\<newline>\<newline>'' @
                (if high (issues rep) \<noteq> []
                 then ''### High Priority Issues\<newline>'' @ numbered (high (issues rep)) @ ''\<newline>''
                 else []) @
                ''\<newline>''
           else []) @
          ''\<newline>**\<newline>\<newline>'' @ summary pre \<and>
        focusAreas rep = areas \<and>
        prefix ''\<newline>## Quick Stats\<newline>- **Total Issues**: '' (summary rep) \<and>
        (partialSuccess rep = Some True \<longrightarrow>
           (\<exists>failed merged. errors rep = Some failed \<and>
              summary rep =
                quickStats pre @ keyIssues pre @ ''\<newline>**\<newline>\<newline>'' @
                partial_note (length failed) (length ?chunks) @ merged \<and>
              summary pre =
                warning_sign @ '' Note: '' @ show_nat (length failed) @ '' of '' @
                show_nat (length ?chunks) @
                '' chunks failed to process. The review is incomplete.\<newline>\<newline>'' @ merged))"
    by blast
qed

lemma numbered_one: "numbered [x] = ''1. '' @ x"
  by (simp add: numbered_def enumerate_simps show_small)

theorem summary_opens_with_quick_stats_witness:
  "\<exists>rep. reviewWithDeepseek (example_env reviewed_but_second in_order) two_chunk_code
           [''security'', ''performance''] example_config = Inr rep \<and>
     partialSuccess rep = Some True \<and>
     issues rep = \<lparr>critical = [''1. SQL injection''], high = [''1. No input validation''],
                    medium = [], low = []\<rparr> \<and>
     summary rep =
       ''\<newline>## Quick Stats\<newline>- **Total Issues**: 2\<newline>- **Critical**: 1\<newline>- **High**: 1\<newline>- **Medium**: 0\<newline>- **Low**: 0\<newline>- **Focus Areas**: security, performance\<newline>- **Chunks Processed**: 1/2\<newline>\<newline>\<newline>## Key Issues to Address\<newline>\<newline>### Critical Issues\<newline>1. 1. SQL injection\<newline>\<newline>\<newline>### High Priority Issues\<newline>1. 1. No input validation\<newline>\<newline>\<newline>**\<newline>\<newline>'' @
       warning_sign @
       '' Note: 1 of 2 chunks failed to process. The review is incomplete.\<newline>\<newline>All good''"
proof -
  let ?env = "example_env reviewed_but_second in_order"
  let ?areas = "[''security'', ''performance'']"
  let ?chunks = "splitCodeIntoChunks two_chunk_code 3000"
  let ?pre = "(as_report (parseReviewResponse example_review ?areas 1 2))
               \<lparr>errors := Some [\<lparr>f_chunkNumber = 2,
                                  f_error = ''DeepSeek API request timed out for chunk 2'',
                                  f_code = ''b\<newline>...''\<rparr>],
                partialSuccess := Some True,
                summary := partial_note 1 2 @ ''All good''\<rparr>"
  let ?rep = "enhanceOutputFormat ?pre"
  have run: "reviewWithDeepseek ?env two_chunk_code ?areas example_config = Inr ?rep"
    by (rule reviewed_run(2))
  have iss: "issues ?rep =
      \<lparr>critical = [''1. SQL injection''], high = [''1. No input validation''],
       medium = [], low = []\<rparr>"
    by (simp add: enhance_kept as_report_def example_parsed)
  have par: "partialSuccess ?rep = Some True"
    by (simp add: enhance_fields)
  have cnt: "length (filter (\<lambda>i. \<not> isl (chunk_task ?env ?chunks ?areas i)) [0..<length ?chunks]) = 1"
    by (simp add: two_chunks reviewed_but_second_task upt_small)
  have len: "length ?chunks = 2"
    by (simp add: two_chunks)
  have cnt2: "length (filter (\<lambda>i. \<not> isl (chunk_task ?env ?chunks ?areas i)) [0..<2]) = 1"
    using cnt by (simp only: len)
  from summary_opens_with_quick_stats [of ?env two_chunk_code ?areas example_config ?rep] run
  obtain pre where pre: "combined_report (run_chunks ?env ?chunks ?areas) ?areas (length ?chunks) = Inr pre"
    and s: "summary ?rep =
          ''\<newline>## Quick Stats\<newline>- **Total Issues**: '' @
            show_nat (length (critical (issues ?rep)) + length (high (issues ?rep)) +
                      length (medium (issues ?rep)) + length (low (issues ?rep))) @
          ''\<newline>- **Critical**: '' @ show_nat (length (critical (issues ?rep))) @
          ''\<newline>- **High**: '' @ show_nat (length (high (issues ?rep))) @
          ''\<newline>- **Medium**: '' @ show_nat (length (medium (issues ?rep))) @
          ''\<newline>- **Low**: '' @ show_nat (length (low (issues ?rep))) @
          ''\<newline>- **Focus Areas**: '' @ join '', '' ?areas @
          ''\<newline>- **Chunks Processed**: '' @
            show_nat (length (filter (\<lambda>i. \<not> isl (chunk_task ?env ?chunks ?areas i))
                                [0..<length ?chunks])) @
          ''/'' @ show_nat (length ?chunks) @ ''\<newline>\<newline>'' @
          (if critical (issues ?rep) \<noteq> [] \<or> high (issues ?rep) \<noteq> []
           then ''\<newline>## Key Issues to Address\<newline>\<newline>'' @
                (if critical (issues ?rep) \<noteq> []
                 then ''### Critical Issues\<newline>'' @ numbered (critical (issues ?rep)) @ ''\<newline>''
                 else []) @
                ''\<newline>\<newline>'' @
                (if high (issues ?rep) \<noteq> []
                 then ''### High Priority Issues\<newline>'' @ numbered (high (issues ?rep)) @ ''\<newline>''
                 else []) @
                ''\<newline>''
           else []) @
          ''\<newline>**\<newline>\<newline>'' @ summary pre"
    by blast
  from pre have "pre = ?pre"
    by (simp only: reviewed_run(1) sum.inject)
  then have sp: "summary pre =
      warning_sign @ '' Note: 1 of 2 chunks failed to process. The review is incomplete.\<newline>\<newline>All good''"
    by (simp add: partial_note_def show_small)
  have "summary ?rep =
       ''\<newline>## Quick Stats\<newline>- **Total Issues**: 2\<newline>- **Critical**: 1\<newline>- **High**: 1\<newline>- **Medium**: 0\<newline>- **Low**: 0\<newline>- **Focus Areas**: security, performance\<newline>- **Chunks Processed**: 1/2\<newline>\<newline>\<newline>## Key Issues to Address\<newline>\<newline>### Critical Issues\<newline>1. 1. SQL injection\<newline>\<newline>\<newline>### High Priority Issues\<newline>1. 1. No input validation\<newline>\<newline>\<newline>**\<newline>\<newline>'' @
       warning_sign @
       '' Note: 1 of 2 chunks failed to process. The review is incomplete.\<newline>\<newline>All good''"
    unfolding s iss len cnt2 sp by (simp add: show_small numbered_one)
  with run par iss show ?thesis
    by blast
qed

end
